theory Spec2Isabelle
  imports Complex_Main "HOL-Library.Word"
begin

unbundle bit_operations_syntax

text \<open>
  A shallow embedding of the Go face-recognition package: the geometry helper, the
  descriptor codec, the matching engine and the pipeline orchestrator with its native
  inference boundary. Definitions keep the names of the source functions.
\<close>

section \<open>Errors\<close>

text \<open>
  Go reports failure through a returned \<open>error\<close> value or through a run-time panic.
  Both are values here. \<open>EOF\<close> and \<open>ErrUnexpectedEOF\<close> are the two errors of package
  \<open>io\<close> that \<open>io.ReadFull\<close> returns; \<open>RecognizerNotInitializedError\<close> is the package's
  own error type; \<open>WriteFailed\<close> stands for whatever error an \<open>io.Writer\<close> reports.
  \<open>PanicIndexOutOfRange i n\<close> is the run-time panic of indexing a slice of length \<open>n\<close>
  at \<open>i\<close>, \<open>PanicSliceBounds\<close> that of a slice expression outside the capacity and
  \<open>PanicNilDereference\<close> the fault of reading through a nil pointer: they abort the
  call, no value is returned to the caller. \<open>FatalOutOfMemory\<close> is the fatal error
  \<open>out of memory\<close> of the runtime when an allocation cannot be served: it ends the
  program and cannot be recovered.
\<close>

datatype go_error =
    EOF
  | ErrUnexpectedEOF
  | WriteFailed
  | RecognizerNotInitializedError
  | PanicIndexOutOfRange nat nat
  | PanicSliceBounds
  | PanicNilDereference
  | FatalOutOfMemory

section \<open>Geometry primitives\<close>

text \<open>
  Go's \<open>int\<close> is a 64-bit machine integer on the supported platforms. The geometry code
  only compares and copies coordinates (\<open>min\<close>, \<open>max\<close>), so no operation can overflow
  and the coordinates are modelled as \<open>int\<close>.
\<close>

record Rectangle =
  Top :: int
  Right :: int
  Bottom :: int
  Left :: int

record Point =
  X :: int
  Y :: int

text \<open>
  \<^verbatim>\<open>
  func trimRectToBounds(rect Rectangle, height, width int) Rectangle {
      return Rectangle{
          Top:    max(rect.Top, 0),
          Right:  min(rect.Right, width),
          Bottom: min(rect.Bottom, height),
          Left:   max(rect.Left, 0),
      }
  }
  \<close>
\<close>

definition trimRectToBounds :: "Rectangle \<Rightarrow> int \<Rightarrow> int \<Rightarrow> Rectangle" where
  "trimRectToBounds rect height width =
     \<lparr>Top = max (Top rect) 0,
      Right = min (Right rect) width,
      Bottom = min (Bottom rect) height,
      Left = max (Left rect) 0\<rparr>"

text \<open>
  The clamping rule in the words of the specification: every coordinate becomes
  \<open>max(0, min(bound, coordinate))\<close>, the bound being the width for left and right and
  the height for top and bottom. It is stated here only to be compared with the code.
\<close>

definition clampTwoSided :: "Rectangle \<Rightarrow> int \<Rightarrow> int \<Rightarrow> Rectangle" where
  "clampTwoSided rect height width =
     \<lparr>Top = max 0 (min height (Top rect)),
      Right = max 0 (min width (Right rect)),
      Bottom = max 0 (min height (Bottom rect)),
      Left = max 0 (min width (Left rect))\<rparr>"

text \<open>A box lies within \<open>[0,width] \<times> [0,height]\<close> when each of its four sides does.\<close>

definition withinBounds :: "Rectangle \<Rightarrow> int \<Rightarrow> int \<Rightarrow> bool" where
  "withinBounds rect height width =
     (0 \<le> Top rect \<and> Top rect \<le> height \<and> 0 \<le> Bottom rect \<and> Bottom rect \<le> height \<and>
      0 \<le> Left rect \<and> Left rect \<le> width \<and> 0 \<le> Right rect \<and> Right rect \<le> width)"

section \<open>Descriptor codec\<close>

text \<open>
  The codec moves \<open>float64\<close> values to and from bytes without computing with them:
  \<open>binary.Write\<close> emits \<open>math.Float64bits(v)\<close> and \<open>binary.Read\<close> rebuilds the value
  with \<open>math.Float64frombits\<close>, two conversions that are inverse to each other on all
  64-bit patterns. In this section a \<open>float64\<close> is therefore its IEEE-754 bit pattern, a
  64-bit word, and "the same value" means the same bits. A \<open>FaceEncoding\<close>
  (\<open>[128]float64\<close>) is a list of 128 such words; the length is an invariant of the Go
  type and appears as a hypothesis where a theorem needs it.
\<close>

type_synonym byte = "8 word"
type_synonym float64bits = "64 word"

text \<open>
  \<open>binary.LittleEndian\<close>: \<open>PutUint32\<close>, \<open>Uint32\<close>, \<open>PutUint64\<close> and \<open>Uint64\<close> of package
  \<open>encoding/binary\<close>, byte \<open>k\<close> holding bits \<open>8k .. 8k+7\<close>:
  \<^verbatim>\<open>
  func (littleEndian) Uint32(b []byte) uint32 {
      return uint32(b[0]) | uint32(b[1])<<8 | uint32(b[2])<<16 | uint32(b[3])<<24
  }
  func (littleEndian) PutUint32(b []byte, v uint32) {
      b[0] = byte(v); b[1] = byte(v >> 8); b[2] = byte(v >> 16); b[3] = byte(v >> 24)
  }
  \<close>
  and likewise with eight bytes for 64 bits. The decoders are only ever applied to the
  4 or 8 bytes that \<open>io.ReadFull\<close> has delivered.
\<close>

definition PutUint32 :: "32 word \<Rightarrow> byte list" where
  "PutUint32 v = [ucast v, ucast (drop_bit 8 v), ucast (drop_bit 16 v), ucast (drop_bit 24 v)]"

definition Uint32 :: "byte list \<Rightarrow> 32 word" where
  "Uint32 b = ucast (b ! 0) OR push_bit 8 (ucast (b ! 1)) OR push_bit 16 (ucast (b ! 2))
     OR push_bit 24 (ucast (b ! 3))"

definition PutUint64 :: "64 word \<Rightarrow> byte list" where
  "PutUint64 v = [ucast v, ucast (drop_bit 8 v), ucast (drop_bit 16 v), ucast (drop_bit 24 v),
     ucast (drop_bit 32 v), ucast (drop_bit 40 v), ucast (drop_bit 48 v), ucast (drop_bit 56 v)]"

definition Uint64 :: "byte list \<Rightarrow> 64 word" where
  "Uint64 b = ucast (b ! 0) OR push_bit 8 (ucast (b ! 1)) OR push_bit 16 (ucast (b ! 2))
     OR push_bit 24 (ucast (b ! 3)) OR push_bit 32 (ucast (b ! 4)) OR push_bit 40 (ucast (b ! 5))
     OR push_bit 48 (ucast (b ! 6)) OR push_bit 56 (ucast (b ! 7))"

subsection \<open>Readers and writers\<close>

text \<open>
  An input stream is the list of bytes it still holds (\<open>bytes.Reader\<close>, or any
  \<open>io.Reader\<close> over a finite stream that fails only by ending). \<open>io.ReadFull\<close> reads
  exactly \<open>n\<close> bytes; it returns \<open>io.EOF\<close> when the stream holds no byte at all and
  \<open>io.ErrUnexpectedEOF\<close> when it holds some, but fewer than \<open>n\<close>.
\<close>

type_synonym reader = "byte list"

definition ReadFull :: "reader \<Rightarrow> nat \<Rightarrow> go_error + (byte list \<times> reader)" where
  "ReadFull r n =
     (if n \<le> length r then Inr (take n r, drop n r)
      else if r = [] then Inl EOF
      else Inl ErrUnexpectedEOF)"

text \<open>
  \<open>binary.Read(r, binary.LittleEndian, &v)\<close> for a \<open>uint32\<close> and for a \<open>float64\<close>: the
  fast path of the library reads 4 or 8 bytes with \<open>io.ReadFull\<close>, returns its error
  unchanged, and decodes the bytes otherwise.
\<close>

definition binary_Read_uint32 :: "reader \<Rightarrow> go_error + (32 word \<times> reader)" where
  "binary_Read_uint32 r =
     (case ReadFull r 4 of Inl err \<Rightarrow> Inl err | Inr (bs, r') \<Rightarrow> Inr (Uint32 bs, r'))"

definition binary_Read_float64 :: "reader \<Rightarrow> go_error + (float64bits \<times> reader)" where
  "binary_Read_float64 r =
     (case ReadFull r 8 of Inl err \<Rightarrow> Inl err | Inr (bs, r') \<Rightarrow> Inr (Uint64 bs, r'))"

text \<open>
  An \<open>io.Writer\<close> is a state \<open>'w\<close> with its \<open>Write\<close> method, which returns the new state
  and possibly an error. \<open>binary.Write\<close> encodes the value and hands the bytes to
  \<open>Write\<close>, returning its error. \<open>Buffer_Write\<close> is \<open>bytes.Buffer\<close>, which appends
  and never fails.
\<close>

type_synonym 'w Writer = "'w \<Rightarrow> byte list \<Rightarrow> 'w \<times> go_error option"

definition Buffer_Write :: "byte list Writer" where
  "Buffer_Write buf p = (buf @ p, None)"

subsection \<open>Single descriptor\<close>

text \<open>
  \<^verbatim>\<open>
  func BytesToEncoding(data []byte) (FaceEncoding, error) {
      var encoding FaceEncoding
      buf := bytes.NewReader(data)
      for i := 0; i < 128; i++ {
          var v float64
          if err := binary.Read(buf, binary.LittleEndian, &v); err != nil {
              return encoding, err
          }
          encoding[i] = v
      }
      return encoding, nil
  }
  \<close>
  \<open>read_values\<close> is the loop: it runs through the indices, stores each value it reads at
  its index and stops at the first error, returning the array as filled so far. The
  same loop is the inner loop of \<open>ReadEncodings\<close>. Both Go results are returned, the
  array and the error: on an error the array is the partially filled one.
\<close>

fun read_values ::
  "nat list \<Rightarrow> float64bits list \<Rightarrow> reader \<Rightarrow> float64bits list \<times> reader \<times> go_error option" where
  "read_values [] encoding r = (encoding, r, None)"
| "read_values (i # rest) encoding r =
     (case binary_Read_float64 r of
        Inl err \<Rightarrow> (encoding, r, Some err)
      | Inr (v, r') \<Rightarrow> read_values rest (encoding[i := v]) r')"

definition BytesToEncoding :: "byte list \<Rightarrow> float64bits list \<times> go_error option" where
  "BytesToEncoding data =
     (case read_values [0..<128] (replicate 128 0) data of (encoding, r, err) \<Rightarrow> (encoding, err))"

subsection \<open>Descriptor stream\<close>

text \<open>
  \<^verbatim>\<open>
  func WriteEncodings(w io.Writer, encodings []FaceEncoding) error {
      if err := binary.Write(w, binary.LittleEndian, uint32(len(encodings))); err != nil {
          return err
      }
      for _, enc := range encodings {
          for _, v := range enc {
              if err := binary.Write(w, binary.LittleEndian, v); err != nil {
                  return err
              }
          }
      }
      return nil
  }
  \<close>
  The conversion \<open>uint32(len(encodings))\<close> keeps the low 32 bits of the length:
  \<open>word_of_nat\<close> into a 32-bit word.
\<close>

fun write_values :: "'w Writer \<Rightarrow> 'w \<Rightarrow> float64bits list \<Rightarrow> 'w \<times> go_error option" where
  "write_values Write w [] = (w, None)"
| "write_values Write w (v # vs) =
     (case Write w (PutUint64 v) of
        (w', Some err) \<Rightarrow> (w', Some err)
      | (w', None) \<Rightarrow> write_values Write w' vs)"

fun write_encodings :: "'w Writer \<Rightarrow> 'w \<Rightarrow> float64bits list list \<Rightarrow> 'w \<times> go_error option" where
  "write_encodings Write w [] = (w, None)"
| "write_encodings Write w (enc # encs) =
     (case write_values Write w enc of
        (w', Some err) \<Rightarrow> (w', Some err)
      | (w', None) \<Rightarrow> write_encodings Write w' encs)"

definition WriteEncodings :: "'w Writer \<Rightarrow> 'w \<Rightarrow> float64bits list list \<Rightarrow> 'w \<times> go_error option" where
  "WriteEncodings Write w encodings =
     (case Write w (PutUint32 (word_of_nat (length encodings))) of
        (w', Some err) \<Rightarrow> (w', Some err)
      | (w', None) \<Rightarrow> write_encodings Write w' encodings)"

text \<open>
  \<^verbatim>\<open>
  func ReadEncodings(r io.Reader) ([]FaceEncoding, error) {
      var count uint32
      if err := binary.Read(r, binary.LittleEndian, &count); err != nil {
          return nil, err
      }
      encodings := make([]FaceEncoding, count)
      for i := uint32(0); i < count; i++ {
          for j := 0; j < 128; j++ {
              if err := binary.Read(r, binary.LittleEndian, &encodings[i][j]); err != nil {
                  return nil, err
              }
          }
      }
      return encodings, nil
  }
  \<close>
  \<open>make\<close> gives \<open>count\<close> zeroed descriptors; the loops fill them in place. On an error
  the function returns \<open>nil\<close> and the error, here \<open>Inl err\<close>.

  \<open>make\<close> asks the runtime for \<open>1024 * count\<close> bytes before any descriptor is read, and
  \<open>count\<close> is whatever the first four bytes of the stream say. \<open>ReadEncodings\<close> is the
  function on a runtime that serves the allocation. \<open>ReadEncodings_heap heap\<close> is the
  function on a runtime that can serve at most \<open>heap\<close> bytes: a larger request ends the
  program with \<open>FatalOutOfMemory\<close>.
\<close>

fun read_encodings ::
  "nat list \<Rightarrow> float64bits list list \<Rightarrow> reader \<Rightarrow> go_error + float64bits list list" where
  "read_encodings [] encodings r = Inr encodings"
| "read_encodings (i # rest) encodings r =
     (case read_values [0..<128] (encodings ! i) r of
        (row, r', Some err) \<Rightarrow> Inl err
      | (row, r', None) \<Rightarrow> read_encodings rest (encodings[i := row]) r')"

definition ReadEncodings :: "reader \<Rightarrow> go_error + float64bits list list" where
  "ReadEncodings r =
     (case binary_Read_uint32 r of
        Inl err \<Rightarrow> Inl err
      | Inr (count, r') \<Rightarrow>
          read_encodings [0..<unat count] (replicate (unat count) (replicate 128 0)) r')"


text \<open>
  The stream layout in the words of the specification: after the 4-byte count, the
  descriptors one after the other, each as its 128 values in little-endian order.
\<close>

definition payload :: "float64bits list \<Rightarrow> byte list" where
  "payload vs = concat (map PutUint64 vs)"


section \<open>Matching engine\<close>

subsection \<open>The type float64\<close>

text \<open>
  \<open>FaceDistance\<close> and \<open>FindBestMatch\<close> compute with \<open>float64\<close>, the binary64 format of
  IEEE 754: a finite value is \<open>m * 2 ^ k\<close> for integers \<open>\<bar>m\<bar> < 2 ^ 53\<close> and
  \<open>- 1074 \<le> k \<le> 971\<close>, and there are two infinities and NaN. A finite value is carried
  as the real number it denotes; the sign of zero is not kept, no operation below
  depends on it. Every arithmetic operation returns the exact result rounded to the
  nearest value of the format, ties to the even significand; a result that rounds
  to \<open>2 ^ 1024\<close> or more in magnitude is an infinity.

  \<open>ulp a\<close> is the spacing of the values of the format around the magnitude \<open>a\<close>:
  \<open>2 ^ (e - 52)\<close> where \<open>2 ^ e \<le> a < 2 ^ (e + 1)\<close>, and \<open>2 ^ (- 1074)\<close> for the subnormal
  range below \<open>2 ^ (- 1022)\<close>.
\<close>

datatype float64 = Finite real | PosInf | NegInf | NaN

definition round_half_even :: "real \<Rightarrow> int" where
  "round_half_even q =
     (let f = \<lfloor>q\<rfloor>
      in if q - of_int f < 1/2 then f
         else if 1/2 < q - of_int f then f + 1
         else if even f then f else f + 1)"

definition ulp :: "real \<Rightarrow> real" where
  "ulp a = 2 powr (of_int (max \<lfloor>log 2 a\<rfloor> (-1022)) - 52)"

definition round64 :: "real \<Rightarrow> float64" where
  "round64 x =
     (if x = 0 then Finite 0
      else
        let a = \<bar>x\<bar>;
            r = of_int (round_half_even (a / ulp a)) * ulp a
        in if 2 ^ 1024 \<le> r then (if 0 < x then PosInf else NegInf)
           else Finite (sgn x * r))"

text \<open>
  The operations \<open>+\<close>, \<open>-\<close>, \<open>*\<close> and \<open>math.Sqrt\<close> of the source, with the special values
  as IEEE 754 gives them: NaN propagates, the sum of the two infinities and the product of zero and an
  infinity are NaN, the square root of
  a negative value is NaN. The clauses of each function are read in order.
\<close>

fun fneg :: "float64 \<Rightarrow> float64" where
  "fneg (Finite a) = Finite (- a)"
| "fneg PosInf = NegInf"
| "fneg NegInf = PosInf"
| "fneg NaN = NaN"

fun fadd :: "float64 \<Rightarrow> float64 \<Rightarrow> float64" where
  "fadd (Finite a) (Finite b) = round64 (a + b)"
| "fadd NaN y = NaN"
| "fadd x NaN = NaN"
| "fadd PosInf NegInf = NaN"
| "fadd NegInf PosInf = NaN"
| "fadd PosInf y = PosInf"
| "fadd NegInf y = NegInf"
| "fadd x PosInf = PosInf"
| "fadd x NegInf = NegInf"

definition fsub :: "float64 \<Rightarrow> float64 \<Rightarrow> float64" where
  "fsub x y = fadd x (fneg y)"

fun negative :: "float64 \<Rightarrow> bool" where
  "negative (Finite a) = (a < 0)"
| "negative NegInf = True"
| "negative x = False"

fun fmul :: "float64 \<Rightarrow> float64 \<Rightarrow> float64" where
  "fmul (Finite a) (Finite b) = round64 (a * b)"
| "fmul NaN y = NaN"
| "fmul x NaN = NaN"
| "fmul x y =
     (if x = Finite 0 \<or> y = Finite 0 then NaN
      else if negative x = negative y then PosInf else NegInf)"

fun fsqrt :: "float64 \<Rightarrow> float64" where
  "fsqrt (Finite a) = (if a < 0 then NaN else round64 (sqrt a))"
| "fsqrt PosInf = PosInf"
| "fsqrt NegInf = NaN"
| "fsqrt NaN = NaN"

text \<open>
  The comparisons \<open><=\<close> and \<open><\<close> of the source: every comparison with NaN is false,
  otherwise the values are ordered as numbers between the two infinities.
\<close>

fun fle :: "float64 \<Rightarrow> float64 \<Rightarrow> bool" where
  "fle (Finite a) (Finite b) = (a \<le> b)"
| "fle NaN y = False"
| "fle x NaN = False"
| "fle NegInf y = True"
| "fle x PosInf = True"
| "fle x y = False"

fun flt :: "float64 \<Rightarrow> float64 \<Rightarrow> bool" where
  "flt (Finite a) (Finite b) = (a < b)"
| "flt NaN y = False"
| "flt x NaN = False"
| "flt PosInf y = False"
| "flt x NegInf = False"
| "flt x y = True"

subsection \<open>Distances and the best match\<close>

text \<open>
  In this subsection a \<open>FaceEncoding\<close> is a list of 128 \<open>float64\<close> values.
  \<^verbatim>\<open>
  func FaceDistance(encoding1, encoding2 FaceEncoding) float64 {
      var sum float64
      for i := 0; i < 128; i++ {
          diff := encoding1[i] - encoding2[i]
          sum += diff * diff
      }
      return math.Sqrt(sum)
  }

  func FaceDistances(encodings []FaceEncoding, faceToCompare FaceEncoding) []float64 {
      if len(encodings) == 0 {
          return []float64{}
      }
      distances := make([]float64, len(encodings))
      for i, encoding := range encodings {
          distances[i] = FaceDistance(encoding, faceToCompare)
      }
      return distances
  }
  \<close>
  \<open>distance_step\<close> is the body of the loop of \<open>FaceDistance\<close>: the difference, its
  square and the sum are rounded one after the other, as on amd64. (The language
  lets a compiler fuse the product and the sum into one operation that rounds once;
  the two readings agree wherever the product is a value of the format.)
\<close>

definition distance_step :: "float64 list \<Rightarrow> float64 list \<Rightarrow> float64 \<Rightarrow> nat \<Rightarrow> float64" where
  "distance_step encoding1 encoding2 sumv i =
     (let diff = fsub (encoding1 ! i) (encoding2 ! i) in fadd sumv (fmul diff diff))"

definition FaceDistance :: "float64 list \<Rightarrow> float64 list \<Rightarrow> float64" where
  "FaceDistance encoding1 encoding2 =
     fsqrt (foldl (distance_step encoding1 encoding2) (Finite 0) [0..<128])"

definition FaceDistances :: "float64 list list \<Rightarrow> float64 list \<Rightarrow> float64 list" where
  "FaceDistances encodings faceToCompare =
     (if length encodings = 0 then []
      else map (\<lambda>encoding. FaceDistance encoding faceToCompare) encodings)"

text \<open>
  \<^verbatim>\<open>
  // FindBestMatch finds the best matching face from a list of known encodings
  // Returns the index of the best match and the distance, or -1 if no match found within tolerance
  func FindBestMatch(knownEncodings []FaceEncoding, faceToCheck FaceEncoding,
                     tolerance float64) (int, float64) {
      if len(knownEncodings) == 0 {
          return -1, 0
      }
      if tolerance <= 0 {
          tolerance = 0.6
      }
      distances := FaceDistances(knownEncodings, faceToCheck)
      bestIndex := -1
      bestDistance := tolerance + 1 // Start with value higher than tolerance
      for i, distance := range distances {
          if distance <= tolerance && distance < bestDistance {
              bestIndex = i
              bestDistance = distance
          }
      }
      if bestIndex == -1 {
          return -1, 0
      }
      return bestIndex, bestDistance
  }
  \<close>
  \<open>best_scan\<close> is the loop over the distances paired with their indices; its state is
  \<open>(bestIndex, bestDistance)\<close>. The constant \<open>0.6\<close> is the value of the format nearest to
  \<open>6/10\<close>.
\<close>

fun best_scan :: "(nat \<times> float64) list \<Rightarrow> float64 \<Rightarrow> int \<Rightarrow> float64 \<Rightarrow> int \<times> float64" where
  "best_scan [] tolerance bestIndex bestDistance = (bestIndex, bestDistance)"
| "best_scan ((i, distance) # rest) tolerance bestIndex bestDistance =
     (if fle distance tolerance \<and> flt distance bestDistance
      then best_scan rest tolerance (int i) distance
      else best_scan rest tolerance bestIndex bestDistance)"

definition FindBestMatch :: "float64 list list \<Rightarrow> float64 list \<Rightarrow> float64 \<Rightarrow> int \<times> float64" where
  "FindBestMatch knownEncodings faceToCheck tolerance =
     (if length knownEncodings = 0 then (-1, Finite 0)
      else
        let tolerance' = (if fle tolerance (Finite 0) then round64 (6/10) else tolerance);
            distances = FaceDistances knownEncodings faceToCheck
        in case best_scan (enumerate 0 distances) tolerance' (-1) (fadd tolerance' (Finite 1)) of
             (bestIndex, bestDistance) \<Rightarrow>
               if bestIndex = -1 then (-1, Finite 0) else (bestIndex, bestDistance))"

subsection \<open>Normalisation\<close>

text \<open>
  \<open>NormalizeEncoding\<close> is modelled over the real numbers, a \<open>FaceEncoding\<close> being a list
  of reals: \<open>+\<close>, \<open>*\<close> and \<open>/\<close> are exact.
  \<^verbatim>\<open>
  // NormalizeEncoding normalizes a face encoding to unit length
  // This can sometimes improve comparison results
  func NormalizeEncoding(encoding FaceEncoding) FaceEncoding {
      var sum float64
      for _, v := range encoding {
          sum += v * v
      }
      if sum == 0 {
          return encoding
      }
      var norm FaceEncoding
      magnitude := 1.0 / sum // Avoid sqrt for efficiency
      for i, v := range encoding {
          norm[i] = v * magnitude
      }
      return norm
  }
  \<close>
\<close>

definition NormalizeEncoding :: "real list \<Rightarrow> real list" where
  "NormalizeEncoding encoding =
     (let sum = foldl (\<lambda>sum v. sum + v * v) 0 encoding
      in if sum = 0 then encoding
         else let magnitude = 1 / sum in map (\<lambda>v. v * magnitude) encoding)"

text \<open>The Euclidean norm of a vector: the square root of the sum of its squared components.\<close>

definition euclidean_norm :: "real list \<Rightarrow> real" where
  "euclidean_norm encoding = sqrt (sum_list (map (\<lambda>v. v * v) encoding))"

section \<open>Inference boundary\<close>

text \<open>
  The native side (\<open>facerec.cpp\<close>) wraps the dlib detector, the two shape predictors
  and the descriptor network. Their numerics are external: each is a field of the
  native recognizer, a function that either throws (\<open>Inl\<close>, with the message of the
  exception) or returns its result. A shape is the function \<open>shape.part(j)\<close>, a
  descriptor the function \<open>face_descriptor(j)\<close>. The conversion of the pixel buffer to a
  dlib matrix and the cropping of the face chip are part of these functions.

  The C structs \<open>image\<close>, \<open>rect\<close> and \<open>point\<close> carry the same fields as the Go types
  \<open>ImageMatrix\<close>, \<open>Rectangle\<close> and \<open>Point\<close> (Go's \<open>int\<close> and C's \<open>long\<close> are both 64
  bits wide); the field-by-field copies between them are not modelled and the Go
  records are used on both sides. The conversion \<open>C.int(n)\<close> of a Go \<open>int\<close> keeps the low
  32 bits of \<open>n\<close>, read as a signed number; it is written out for the two arguments
  the caller chooses, \<open>upsampleTimes\<close> and \<open>numJitters\<close>. The lengths of slices and the
  constants passed as C \<open>int\<close> are taken to fit.
\<close>

definition C_int :: "int \<Rightarrow> int" where
  "C_int n = sint (word_of_int n :: 32 word)"

record ImageMatrix =
  Pixels :: "8 word list"
  Width :: int
  Height :: int
  Stride :: int

record FaceRecognizer_cpp =
  error_msg :: string
  hog_detector :: "ImageMatrix \<Rightarrow> int \<Rightarrow> string + Rectangle list"
  shape_predictor_68 :: "ImageMatrix \<Rightarrow> Rectangle \<Rightarrow> string + (nat \<Rightarrow> Point)"
  shape_predictor_5 :: "ImageMatrix \<Rightarrow> Rectangle \<Rightarrow> string + (nat \<Rightarrow> Point)"
  face_encoder :: "ImageMatrix \<Rightarrow> Point list \<Rightarrow> string + (nat \<Rightarrow> real)"
  hog_loaded :: bool
  sp68_loaded :: bool
  sp5_loaded :: bool
  encoder_loaded :: bool

text \<open>
  A handle (\<open>facerec\<close>, a \<open>void*\<close>) is \<open>None\<close> when null and otherwise holds the native
  recognizer it points to. Every boundary function returns the handle's new content
  next to its result, since a caught exception stores its message in \<open>error_msg\<close>.
  \<^verbatim>\<open>
  rect* facerec_detect(facerec handle, image img, int upsample_times, int use_cnn,
                       int* num_faces) {
      *num_faces = 0;
      if (!handle) return nullptr;
      FaceRecognizer* rec = static_cast<FaceRecognizer*>(handle);
      try {
          auto mat = image_to_matrix(img);
          std::vector<dlib::rectangle> dets;
          // Use HOG detector (CNN not supported in this simplified version)
          if (rec->hog_loaded) {
              dets = rec->hog_detector(mat, upsample_times);
          } else {
              return nullptr;
          }
          if (dets.empty()) {
              return nullptr;
          }
          *num_faces = static_cast<int>(dets.size());
          rect* rects = static_cast<rect*>(malloc(sizeof(rect) * dets.size()));
          for (size_t i = 0; i < dets.size(); i++) { ... copy dets[i] ... }
          return rects;
      } catch (const std::exception& e) {
          rec->error_msg = e.what();
          return nullptr;
      }
  }
  \<close>
  The result is the returned pointer (\<open>None\<close> for \<open>nullptr\<close>), \<open>*num_faces\<close> and the
  handle.
\<close>

definition facerec_detect ::
  "FaceRecognizer_cpp option \<Rightarrow> ImageMatrix \<Rightarrow> int \<Rightarrow> int \<Rightarrow>
     Rectangle list option \<times> int \<times> FaceRecognizer_cpp option" where
  "facerec_detect handle img upsample_times use_cnn =
     (case handle of
        None \<Rightarrow> (None, 0, None)
      | Some rec \<Rightarrow>
          if hog_loaded rec then
            (case hog_detector rec img upsample_times of
               Inl what \<Rightarrow> (None, 0, Some (rec\<lparr>error_msg := what\<rparr>))
             | Inr dets \<Rightarrow>
                 if dets = [] then (None, 0, Some rec)
                 else (Some dets, int (length dets), Some rec))
          else (None, 0, Some rec))"

text \<open>
  \<^verbatim>\<open>
  point* facerec_landmarks(facerec handle, image img, rect* faces, int num_faces,
                           int use_small) {
      if (!handle || !faces || num_faces <= 0) return nullptr;
      FaceRecognizer* rec = static_cast<FaceRecognizer*>(handle);
      try {
          auto mat = image_to_matrix(img);
          dlib::shape_predictor* predictor;
          int points_per_face;
          if (use_small && rec->sp5_loaded) {
              predictor = &rec->shape_predictor_5;  points_per_face = 5;
          } else if (rec->sp68_loaded) {
              predictor = &rec->shape_predictor_68; points_per_face = 68;
          } else {
              return nullptr;
          }
          point* landmarks = static_cast<point*>(malloc(...));
          for (int i = 0; i < num_faces; i++) {
              dlib::rectangle face_rect(faces[i].left, ...);
              auto shape = predictor->operator()(mat, face_rect);
              for (int j = 0; j < points_per_face; j++) {
                  landmarks[i * points_per_face + j].x = shape.part(j).x();
                  landmarks[i * points_per_face + j].y = shape.part(j).y();
              }
          }
          return landmarks;
      } catch (const std::exception& e) {
          rec->error_msg = e.what();
          return nullptr;
      }
  }
  \<close>
  \<open>faces\<close> is the array behind the pointer, which Go passes only when it is not empty.
  \<open>predict_all\<close> is the loop over the faces; it yields the flat array of points.
\<close>

fun predict_all ::
  "(ImageMatrix \<Rightarrow> Rectangle \<Rightarrow> string + (nat \<Rightarrow> Point)) \<Rightarrow> nat \<Rightarrow> ImageMatrix \<Rightarrow>
     Rectangle list \<Rightarrow> string + Point list" where
  "predict_all predictor points_per_face img [] = Inr []"
| "predict_all predictor points_per_face img (face_rect # faces) =
     (case predictor img face_rect of
        Inl what \<Rightarrow> Inl what
      | Inr shape \<Rightarrow>
          (case predict_all predictor points_per_face img faces of
             Inl what \<Rightarrow> Inl what
           | Inr landmarks \<Rightarrow> Inr (map shape [0..<points_per_face] @ landmarks)))"

definition run_predictor ::
  "FaceRecognizer_cpp \<Rightarrow> (ImageMatrix \<Rightarrow> Rectangle \<Rightarrow> string + (nat \<Rightarrow> Point)) \<Rightarrow> nat \<Rightarrow>
     ImageMatrix \<Rightarrow> Rectangle list \<Rightarrow> Point list option \<times> FaceRecognizer_cpp option" where
  "run_predictor rec predictor points_per_face img faces =
     (case predict_all predictor points_per_face img faces of
        Inl what \<Rightarrow> (None, Some (rec\<lparr>error_msg := what\<rparr>))
      | Inr landmarks \<Rightarrow> (Some landmarks, Some rec))"

definition facerec_landmarks ::
  "FaceRecognizer_cpp option \<Rightarrow> ImageMatrix \<Rightarrow> Rectangle list \<Rightarrow> int \<Rightarrow> int \<Rightarrow>
     Point list option \<times> FaceRecognizer_cpp option" where
  "facerec_landmarks handle img faces num_faces use_small =
     (case handle of
        None \<Rightarrow> (None, None)
      | Some rec \<Rightarrow>
          if num_faces \<le> 0 then (None, Some rec)
          else if use_small \<noteq> 0 \<and> sp5_loaded rec
            then run_predictor rec (shape_predictor_5 rec) 5 img (take (nat num_faces) faces)
          else if sp68_loaded rec
            then run_predictor rec (shape_predictor_68 rec) 68 img (take (nat num_faces) faces)
          else (None, Some rec))"

text \<open>
  \<^verbatim>\<open>
  double* facerec_encode(facerec handle, image img, point* landmarks, int num_faces,
                         int points_per_face, int num_jitters) {
      if (!handle || !landmarks || num_faces <= 0) return nullptr;
      FaceRecognizer* rec = static_cast<FaceRecognizer*>(handle);
      if (!rec->encoder_loaded) return nullptr;
      try {
          auto mat = image_to_matrix(img);
          double* encodings = static_cast<double*>(malloc(...));
          for (int i = 0; i < num_faces; i++) {
              std::vector<dlib::point> parts;
              for (int j = 0; j < points_per_face; j++) { parts.push_back(landmarks[i * points_per_face + j]); }
              ... face chip around the parts ...
              dlib::matrix<float, 0, 1> face_descriptor = rec->face_encoder(face_chip);
              for (int j = 0; j < 128; j++) {
                  encodings[i * 128 + j] = static_cast<double>(face_descriptor(j));
              }
          }
          return encodings;
      } catch (const std::exception& e) {
          rec->error_msg = e.what();
          return nullptr;
      }
  }
  \<close>
  \<open>num_jitters\<close> is not used by the function. \<open>encode_all\<close> is the loop over the
  faces; it yields the flat array of \<open>128 * num_faces\<close> values.
\<close>

fun encode_all ::
  "(ImageMatrix \<Rightarrow> Point list \<Rightarrow> string + (nat \<Rightarrow> real)) \<Rightarrow> ImageMatrix \<Rightarrow> Point list list \<Rightarrow>
     string + real list" where
  "encode_all encoder img [] = Inr []"
| "encode_all encoder img (parts # rest) =
     (case encoder img parts of
        Inl what \<Rightarrow> Inl what
      | Inr face_descriptor \<Rightarrow>
          (case encode_all encoder img rest of
             Inl what \<Rightarrow> Inl what
           | Inr encodings \<Rightarrow> Inr (map face_descriptor [0..<128] @ encodings)))"

definition facerec_encode ::
  "FaceRecognizer_cpp option \<Rightarrow> ImageMatrix \<Rightarrow> Point list \<Rightarrow> int \<Rightarrow> nat \<Rightarrow> int \<Rightarrow>
     real list option \<times> FaceRecognizer_cpp option" where
  "facerec_encode handle img landmarks num_faces points_per_face num_jitters =
     (case handle of
        None \<Rightarrow> (None, None)
      | Some rec \<Rightarrow>
          if num_faces \<le> 0 then (None, Some rec)
          else if \<not> encoder_loaded rec then (None, Some rec)
          else
            (case encode_all (face_encoder rec) img
                    (map (\<lambda>i. take points_per_face (drop (i * points_per_face) landmarks))
                       [0..<nat num_faces]) of
               Inl what \<Rightarrow> (None, Some (rec\<lparr>error_msg := what\<rparr>))
             | Inr encodings \<Rightarrow> (Some encodings, Some rec)))"

section \<open>Go slices\<close>

text \<open>
  The landmark reconstruction builds its contours with slice expressions and
  \<open>append\<close> on one shared array, so slices are modelled with their backing store. A
  store is a list of arrays; a slice names an array of the store, an offset into it,
  its length and its capacity. \<open>s[lo:hi]\<close> shares the array and panics unless
  \<open>lo \<le> hi \<le> cap(s)\<close>; \<open>s[i]\<close> panics unless \<open>i < len(s)\<close>. \<open>append(s, vs...)\<close> writes
  the new elements into the shared array behind the slice when the capacity
  suffices, and copies to a fresh array otherwise (Go then chooses some capacity at
  least the new length; the model takes the new length, which affects no contents).
\<close>

record slice =
  sarr :: nat
  soff :: nat
  slen :: nat
  scap :: nat

type_synonym store = "Point list list"

definition slice_contents :: "store \<Rightarrow> slice \<Rightarrow> Point list" where
  "slice_contents h s = take (slen s) (drop (soff s) (h ! sarr s))"

definition slice_index :: "store \<Rightarrow> slice \<Rightarrow> nat \<Rightarrow> go_error + Point" where
  "slice_index h s i =
     (if i < slen s then Inr (h ! sarr s ! (soff s + i))
      else Inl (PanicIndexOutOfRange i (slen s)))"

definition reslice :: "slice \<Rightarrow> nat \<Rightarrow> nat \<Rightarrow> go_error + slice" where
  "reslice s lo hi =
     (if lo \<le> hi \<and> hi \<le> scap s
      then Inr \<lparr>sarr = sarr s, soff = soff s + lo, slen = hi - lo, scap = scap s - lo\<rparr>
      else Inl PanicSliceBounds)"

definition write_at :: "Point list \<Rightarrow> nat \<Rightarrow> Point list \<Rightarrow> Point list" where
  "write_at a pos vs = take pos a @ vs @ drop (pos + length vs) a"

definition go_append :: "store \<Rightarrow> slice \<Rightarrow> Point list \<Rightarrow> store \<times> slice" where
  "go_append h s vs =
     (if slen s + length vs \<le> scap s
      then (h[sarr s := write_at (h ! sarr s) (soff s + slen s) vs],
            s\<lparr>slen := slen s + length vs\<rparr>)
      else (h @ [slice_contents h s @ vs],
            \<lparr>sarr = length h, soff = 0, slen = slen s + length vs, scap = slen s + length vs\<rparr>))"

text \<open>Sequencing of steps that may panic: the first panic ends the computation.\<close>

definition and_then :: "go_error + 'a \<Rightarrow> ('a \<Rightarrow> go_error + 'b) \<Rightarrow> go_error + 'b" where
  "and_then m f = (case m of Inl err \<Rightarrow> Inl err | Inr x \<Rightarrow> f x)"

fun slice_indices :: "store \<Rightarrow> slice \<Rightarrow> nat list \<Rightarrow> go_error + Point list" where
  "slice_indices h s [] = Inr []"
| "slice_indices h s (i # rest) =
     and_then (slice_index h s i) (\<lambda>p. and_then (slice_indices h s rest) (\<lambda>ps. Inr (p # ps)))"

section \<open>Pipeline orchestrator\<close>

text \<open>
  The Go recognizer holds the native handle and the \<open>initialized\<close> flag. The model
  paths and the read/write lock are left out: the model is of one call at a time.
  Every operation returns the Go results (\<open>Inl\<close> for a non-nil error or a panic) and
  the recognizer, whose native part the call may have changed.
\<close>

record FaceRecognizer =
  rec :: "FaceRecognizer_cpp option"
  initialized :: bool

type_synonym DetectionModel = string
type_synonym LandmarkModel = string

definition HOG :: DetectionModel where "HOG = ''hog''"
definition CNN :: DetectionModel where "CNN = ''cnn''"
definition LandmarkLarge :: LandmarkModel where "LandmarkLarge = ''large''"
definition LandmarkSmall :: LandmarkModel where "LandmarkSmall = ''small''"

text \<open>
  \<^verbatim>\<open>
  func (fr *FaceRecognizer) FaceLocations(img *ImageMatrix, upsampleTimes int,
                                          model DetectionModel) ([]Rectangle, error) {
      if !fr.initialized {
          return nil, &RecognizerNotInitializedError{}
      }
      if upsampleTimes < 1 {
          upsampleTimes = 1
      }
      cImg := imageMatrixToC(img)
      useCNN := 0
      if model == CNN {
          useCNN = 1
      }
      var numFaces C.int
      cRects := C.facerec_detect(fr.rec, cImg, C.int(upsampleTimes), C.int(useCNN), &numFaces)
      if numFaces == 0 {
          return []Rectangle{}, nil
      }
      rects := make([]Rectangle, int(numFaces))
      ... for i, r := range cRectsSlice (the numFaces rectangles behind cRects) {
          rects[i] = Rectangle{Top: int(r.top), Right: int(r.right), ...}
          rects[i] = trimRectToBounds(rects[i], img.Height, img.Width)
      }
      return rects, nil
  }
  \<close>
  Reading rectangles behind a null pointer would fault; the boundary never returns one
  with a non-zero count, and the model marks the case as a panic.
\<close>

definition FaceLocations ::
  "FaceRecognizer \<Rightarrow> ImageMatrix \<Rightarrow> int \<Rightarrow> DetectionModel \<Rightarrow>
     (go_error + Rectangle list) \<times> FaceRecognizer" where
  "FaceLocations fr img upsampleTimes model =
     (if \<not> initialized fr then (Inl RecognizerNotInitializedError, fr)
      else
        let upsampleTimes' = (if upsampleTimes < 1 then 1 else upsampleTimes);
            useCNN = (if model = CNN then 1 else 0)
        in case facerec_detect (rec fr) img (C_int upsampleTimes') useCNN of
             (cRects, numFaces, rec') \<Rightarrow>
               if numFaces = 0 then (Inr [], fr\<lparr>rec := rec'\<rparr>)
               else
                 (case cRects of
                    None \<Rightarrow> (Inl PanicNilDereference, fr\<lparr>rec := rec'\<rparr>)
                  | Some cRectsSlice \<Rightarrow>
                      (Inr (map (\<lambda>r. trimRectToBounds r (Height img) (Width img))
                              (take (nat numFaces) cRectsSlice)),
                       fr\<lparr>rec := rec'\<rparr>)))"

text \<open>
  \<^verbatim>\<open>
  func (fr *FaceRecognizer) FaceLandmarksDetect(img *ImageMatrix, faceLocations []Rectangle,
                                                model LandmarkModel) ([]RawLandmarks, error) {
      if !fr.initialized {
          return nil, &RecognizerNotInitializedError{}
      }
      if faceLocations == nil {
          var err error
          faceLocations, err = fr.FaceLocations(img, 1, HOG)
          if err != nil {
              return nil, err
          }
      }
      if len(faceLocations) == 0 {
          return []RawLandmarks{}, nil
      }
      ...
      useSmall := 0
      if model == LandmarkSmall {
          useSmall = 1
      }
      numPoints := 68
      if useSmall == 1 {
          numPoints = 5
      }
      cLandmarks := C.facerec_landmarks(fr.rec, cImg, &cRects[0], C.int(len(faceLocations)),
                                        C.int(useSmall))
      if cLandmarks == nil {
          return []RawLandmarks{}, nil
      }
      landmarks := make([]RawLandmarks, len(faceLocations))
      for i := 0; i < len(faceLocations); i++ {
          landmarks[i].Points = make([]Point, numPoints)
          for j := 0; j < numPoints; j++ {
              idx := i*numPoints + j
              landmarks[i].Points[j] = Point{X: int(cLandmarksSlice[idx].x), Y: ...}
          }
      }
      return landmarks, nil
  }
  \<close>
  A nil \<open>faceLocations\<close> is \<open>None\<close>. A \<open>RawLandmarks\<close> value is the content of its
  \<open>Points\<close> slice, which is made afresh for every face with length and capacity
  \<open>numPoints\<close>. \<open>landmarks_for\<close> is the function from the test of
  \<open>len(faceLocations)\<close> on, once the boxes are known. The points are read through an
  unchecked view of the native array, \<open>numPoints\<close> for each face.
\<close>

type_synonym RawLandmarks = "Point list"

definition landmarks_for ::
  "FaceRecognizer \<Rightarrow> ImageMatrix \<Rightarrow> Rectangle list \<Rightarrow> LandmarkModel \<Rightarrow>
     (go_error + RawLandmarks list) \<times> FaceRecognizer" where
  "landmarks_for fr img faceLocations model =
     (if length faceLocations = 0 then (Inr [], fr)
      else
        let useSmall = (if model = LandmarkSmall then 1 else (0::int));
            numPoints = (if useSmall = 1 then 5 else (68::nat))
        in case facerec_landmarks (rec fr) img faceLocations (int (length faceLocations)) useSmall of
             (None, rec') \<Rightarrow> (Inr [], fr\<lparr>rec := rec'\<rparr>)
           | (Some cLandmarksSlice, rec') \<Rightarrow>
               (Inr (map (\<lambda>i. map (\<lambda>j. cLandmarksSlice ! (i * numPoints + j)) [0..<numPoints])
                       [0..<length faceLocations]),
                fr\<lparr>rec := rec'\<rparr>))"

definition FaceLandmarksDetect ::
  "FaceRecognizer \<Rightarrow> ImageMatrix \<Rightarrow> Rectangle list option \<Rightarrow> LandmarkModel \<Rightarrow>
     (go_error + RawLandmarks list) \<times> FaceRecognizer" where
  "FaceLandmarksDetect fr img faceLocations model =
     (if \<not> initialized fr then (Inl RecognizerNotInitializedError, fr)
      else
        (case faceLocations of
           None \<Rightarrow>
             (case FaceLocations fr img 1 HOG of
                (Inl err, fr') \<Rightarrow> (Inl err, fr')
              | (Inr detected, fr') \<Rightarrow> landmarks_for fr' img detected model)
         | Some given \<Rightarrow> landmarks_for fr img given model))"

text \<open>
  \<^verbatim>\<open>
  func (fr *FaceRecognizer) FaceLandmarks(img *ImageMatrix, faceLocations []Rectangle)
          ([]FaceLandmarks, error) {
      raw, err := fr.FaceLandmarksDetect(img, faceLocations, LandmarkLarge)
      if err != nil {
          return nil, err
      }
      landmarks := make([]FaceLandmarks, len(raw))
      for i, r := range raw {
          if len(r.Points) < 68 {
              continue
          }
          landmarks[i] = FaceLandmarks{
              Chin:         r.Points[0:17],
              LeftEyebrow:  r.Points[17:22],
              RightEyebrow: r.Points[22:27],
              NoseBridge:   r.Points[27:31],
              NoseTip:      r.Points[31:36],
              LeftEye:      r.Points[36:42],
              RightEye:     r.Points[42:48],
              TopLip:       append(r.Points[48:55], r.Points[64], r.Points[63], r.Points[62],
                                   r.Points[61], r.Points[60]),
              BottomLip:    append(append(r.Points[54:60], r.Points[48]), r.Points[60],
                                   r.Points[67], r.Points[66], r.Points[65], r.Points[64]),
          }
      }
      return landmarks, nil
  }
  \<close>
  \<open>structure_points\<close> is the body of the loop for one face. The store holds the array
  behind \<open>r.Points\<close> at address 0; the fields are evaluated in the order written. The
  operands of one \<open>append\<close> are read before it writes. In the nested \<open>append\<close> of
  \<open>BottomLip\<close> the inner call runs first and the remaining operands of the outer call
  are read after it, which is the order the Go compiler produces (the language leaves
  the order of an index expression relative to a call open; only element 7 of
  \<open>BottomLip\<close> depends on it). The record holds, for every contour, the content of its
  slice when the function returns.
\<close>

record FaceLandmarks =
  Chin :: "Point list"
  LeftEyebrow :: "Point list"
  RightEyebrow :: "Point list"
  NoseBridge :: "Point list"
  NoseTip :: "Point list"
  LeftEye :: "Point list"
  RightEye :: "Point list"
  TopLip :: "Point list"
  BottomLip :: "Point list"

definition zero_FaceLandmarks :: FaceLandmarks where
  "zero_FaceLandmarks =
     \<lparr>Chin = [], LeftEyebrow = [], RightEyebrow = [], NoseBridge = [], NoseTip = [],
      LeftEye = [], RightEye = [], TopLip = [], BottomLip = []\<rparr>"

definition structure_points :: "Point list \<Rightarrow> nat \<Rightarrow> go_error + FaceLandmarks" where
  "structure_points points capacity =
     (let h0 = [points];
          Points = \<lparr>sarr = 0, soff = 0, slen = length points, scap = capacity\<rparr>
      in
      and_then (reslice Points 0 17) (\<lambda>chin.
      and_then (reslice Points 17 22) (\<lambda>leftEyebrow.
      and_then (reslice Points 22 27) (\<lambda>rightEyebrow.
      and_then (reslice Points 27 31) (\<lambda>noseBridge.
      and_then (reslice Points 31 36) (\<lambda>noseTip.
      and_then (reslice Points 36 42) (\<lambda>leftEye.
      and_then (reslice Points 42 48) (\<lambda>rightEye.
      and_then (reslice Points 48 55) (\<lambda>top0.
      and_then (slice_indices h0 Points [64, 63, 62, 61, 60]) (\<lambda>topArgs.
      case go_append h0 top0 topArgs of (h1, topLip) \<Rightarrow>
      and_then (reslice Points 54 60) (\<lambda>bottom0.
      and_then (slice_indices h1 Points [48]) (\<lambda>innerArgs.
      case go_append h1 bottom0 innerArgs of (h2, bottom1) \<Rightarrow>
      and_then (slice_indices h2 Points [60, 67, 66, 65, 64]) (\<lambda>outerArgs.
      case go_append h2 bottom1 outerArgs of (h3, bottomLip) \<Rightarrow>
      Inr \<lparr>Chin = slice_contents h3 chin,
           LeftEyebrow = slice_contents h3 leftEyebrow,
           RightEyebrow = slice_contents h3 rightEyebrow,
           NoseBridge = slice_contents h3 noseBridge,
           NoseTip = slice_contents h3 noseTip,
           LeftEye = slice_contents h3 leftEye,
           RightEye = slice_contents h3 rightEye,
           TopLip = slice_contents h3 topLip,
           BottomLip = slice_contents h3 bottomLip\<rparr>)))))))))))))"

fun structure_all :: "RawLandmarks list \<Rightarrow> go_error + FaceLandmarks list" where
  "structure_all [] = Inr []"
| "structure_all (r # raw) =
     and_then
       (if length r < 68 then Inr zero_FaceLandmarks else structure_points r (length r))
       (\<lambda>l. and_then (structure_all raw) (\<lambda>ls. Inr (l # ls)))"

definition FaceLandmarks ::
  "FaceRecognizer \<Rightarrow> ImageMatrix \<Rightarrow> Rectangle list option \<Rightarrow>
     (go_error + FaceLandmarks list) \<times> FaceRecognizer" where
  "FaceLandmarks fr img faceLocations =
     (case FaceLandmarksDetect fr img faceLocations LandmarkLarge of
        (Inl err, fr') \<Rightarrow> (Inl err, fr')
      | (Inr raw, fr') \<Rightarrow> (structure_all raw, fr'))"

text \<open>
  The contour layout in the words of the specification, from the raw points as they
  were detected.
\<close>

definition upper_lip_spec :: "Point list \<Rightarrow> Point list" where
  "upper_lip_spec raw = map (\<lambda>i. raw ! i) ([48..<55] @ [64, 63, 62, 61, 60])"

definition lower_lip_spec :: "Point list \<Rightarrow> Point list" where
  "lower_lip_spec raw = map (\<lambda>i. raw ! i) ([54..<60] @ [48] @ [60, 67, 66, 65, 64])"

text \<open>
  \<^verbatim>\<open>
  func (fr *FaceRecognizer) FaceEncodings(img *ImageMatrix, faceLocations []Rectangle,
          numJitters int, model LandmarkModel) ([]FaceEncoding, error) {
      if !fr.initialized {
          return nil, &RecognizerNotInitializedError{}
      }
      if numJitters < 1 {
          numJitters = 1
      }
      raw, err := fr.FaceLandmarksDetect(img, faceLocations, model)
      if err != nil {
          return nil, err
      }
      if len(raw) == 0 {
          return []FaceEncoding{}, nil
      }
      numPoints := 68
      if model == LandmarkSmall {
          numPoints = 5
      }
      cPoints := make([]C.point, len(raw)*numPoints)
      for i, r := range raw {
          for j, p := range r.Points {
              cPoints[i*numPoints+j] = C.point{x: C.long(p.X), y: C.long(p.Y)}
          }
      }
      cEncodings := C.facerec_encode(fr.rec, cImg, &cPoints[0], C.int(len(raw)),
                                     C.int(numPoints), C.int(numJitters))
      if cEncodings == nil {
          return []FaceEncoding{}, nil
      }
      encodings := make([]FaceEncoding, len(raw))
      for i := 0; i < len(raw); i++ {
          for j := 0; j < 128; j++ {
              encodings[i][j] = float64(cEncodingsSlice[i*128+j])
          }
      }
      return encodings, nil
  }
  \<close>
  \<open>flatten_points\<close> is the pair of loops that fills \<open>cPoints\<close>, with the bounds check of
  the assignment. A descriptor is the list of the numbers its values denote: the
  pipeline copies the values and does not compute with them.
\<close>

fun flatten_row :: "nat \<Rightarrow> (nat \<times> Point) list \<Rightarrow> Point list \<Rightarrow> go_error + Point list" where
  "flatten_row base [] cPoints = Inr cPoints"
| "flatten_row base ((j, p) # rest) cPoints =
     (if base + j < length cPoints then flatten_row base rest (cPoints[base + j := p])
      else Inl (PanicIndexOutOfRange (base + j) (length cPoints)))"

fun flatten_points ::
  "nat \<Rightarrow> (nat \<times> RawLandmarks) list \<Rightarrow> Point list \<Rightarrow> go_error + Point list" where
  "flatten_points numPoints [] cPoints = Inr cPoints"
| "flatten_points numPoints ((i, r) # rest) cPoints =
     and_then (flatten_row (i * numPoints) (enumerate 0 r) cPoints)
       (\<lambda>cPoints'. flatten_points numPoints rest cPoints')"

definition FaceEncodings ::
  "FaceRecognizer \<Rightarrow> ImageMatrix \<Rightarrow> Rectangle list option \<Rightarrow> int \<Rightarrow> LandmarkModel \<Rightarrow>
     (go_error + real list list) \<times> FaceRecognizer" where
  "FaceEncodings fr img faceLocations numJitters model =
     (if \<not> initialized fr then (Inl RecognizerNotInitializedError, fr)
      else
        let numJitters' = (if numJitters < 1 then 1 else numJitters)
        in case FaceLandmarksDetect fr img faceLocations model of
             (Inl err, fr') \<Rightarrow> (Inl err, fr')
           | (Inr raw, fr') \<Rightarrow>
               if length raw = 0 then (Inr [], fr')
               else
                 let numPoints = (if model = LandmarkSmall then 5 else (68::nat))
                 in case flatten_points numPoints (enumerate 0 raw)
                           (replicate (length raw * numPoints) \<lparr>X = 0, Y = 0\<rparr>) of
                      Inl err \<Rightarrow> (Inl err, fr')
                    | Inr cPoints \<Rightarrow>
                        (case facerec_encode (rec fr') img cPoints (int (length raw)) numPoints
                                (C_int numJitters') of
                           (None, rec') \<Rightarrow> (Inr [], fr'\<lparr>rec := rec'\<rparr>)
                         | (Some cEncodingsSlice, rec') \<Rightarrow>
                             (Inr (map (\<lambda>i. map (\<lambda>j. cEncodingsSlice ! (i * 128 + j)) [0..<128])
                                     [0..<length raw]),
                              fr'\<lparr>rec := rec'\<rparr>)))"

text \<open>
  \<^verbatim>\<open>
  func (fr *FaceRecognizer) DetectAndEncode(img *ImageMatrix, upsampleTimes int,
                                            numJitters int) ([]Face, error) {
      locations, err := fr.FaceLocations(img, upsampleTimes, HOG)
      if err != nil {
          return nil, err
      }
      landmarks, err := fr.FaceLandmarks(img, locations)
      if err != nil {
          return nil, err
      }
      encodings, err := fr.FaceEncodings(img, locations, numJitters, LandmarkLarge)
      if err != nil {
          return nil, err
      }
      faces := make([]Face, len(locations))
      for i := range locations {
          faces[i] = Face{
              Rectangle: locations[i],
              Encoding:  encodings[i],
          }
          if i < len(landmarks) {
              faces[i].Landmarks = landmarks[i]
          }
      }
      return faces, nil
  }
  \<close>
  \<open>assemble_faces\<close> is the loop. \<open>encodings[i]\<close> is a bounds-checked index: it panics
  when \<open>i\<close> is not below \<open>len(encodings)\<close>. The \<open>Landmarks\<close> field (an \<open>interface{}\<close>) is
  \<open>None\<close> when it is left nil. The slice returned by \<open>FaceLocations\<close> is never nil.
\<close>

record Face =
  Rectangle :: Rectangle
  Landmarks :: "FaceLandmarks option"
  Encoding :: "real list"

fun assemble_faces ::
  "nat list \<Rightarrow> Rectangle list \<Rightarrow> FaceLandmarks list \<Rightarrow> real list list \<Rightarrow> go_error + Face list" where
  "assemble_faces [] locations landmarks encodings = Inr []"
| "assemble_faces (i # rest) locations landmarks encodings =
     (if i < length encodings
      then and_then (assemble_faces rest locations landmarks encodings)
             (\<lambda>faces. Inr (\<lparr>Rectangle = locations ! i,
                              Landmarks = (if i < length landmarks then Some (landmarks ! i) else None),
                              Encoding = encodings ! i\<rparr> # faces))
      else Inl (PanicIndexOutOfRange i (length encodings)))"

definition DetectAndEncode ::
  "FaceRecognizer \<Rightarrow> ImageMatrix \<Rightarrow> int \<Rightarrow> int \<Rightarrow> (go_error + Face list) \<times> FaceRecognizer" where
  "DetectAndEncode fr img upsampleTimes numJitters =
     (case FaceLocations fr img upsampleTimes HOG of
        (Inl err, fr1) \<Rightarrow> (Inl err, fr1)
      | (Inr locations, fr1) \<Rightarrow>
          (case FaceLandmarks fr1 img (Some locations) of
             (Inl err, fr2) \<Rightarrow> (Inl err, fr2)
           | (Inr landmarks, fr2) \<Rightarrow>
               (case FaceEncodings fr2 img (Some locations) numJitters LandmarkLarge of
                  (Inl err, fr3) \<Rightarrow> (Inl err, fr3)
                | (Inr encodings, fr3) \<Rightarrow>
                    (assemble_faces [0..<length locations] locations landmarks encodings, fr3))))"

text \<open>
  Native recognizers for the worked examples: the detector finds one face, the
  shape predictors return the distinct points \<open>(j, 100 + j)\<close>, and either everything
  works, or the detector, the predictor or the descriptor network throws.
\<close>

definition example_point :: "nat \<Rightarrow> Point" where
  "example_point j = \<lparr>X = int j, Y = 100 + int j\<rparr>"

definition example_box :: Rectangle where
  "example_box = \<lparr>Top = 10, Right = 60, Bottom = 70, Left = 20\<rparr>"

definition working_engine :: FaceRecognizer_cpp where
  "working_engine =
     \<lparr>error_msg = [],
      hog_detector = (\<lambda>img upsample. Inr [example_box]),
      shape_predictor_68 = (\<lambda>img r. Inr example_point),
      shape_predictor_5 = (\<lambda>img r. Inr example_point),
      face_encoder = (\<lambda>img parts. Inr (\<lambda>j. 0)),
      hog_loaded = True, sp68_loaded = True, sp5_loaded = True, encoder_loaded = True\<rparr>"

definition failing_detector_engine :: FaceRecognizer_cpp where
  "failing_detector_engine =
     working_engine\<lparr>hog_detector := (\<lambda>img upsample. Inl ''detector failed'')\<rparr>"

definition failing_predictor_engine :: FaceRecognizer_cpp where
  "failing_predictor_engine =
     working_engine\<lparr>shape_predictor_68 := (\<lambda>img r. Inl ''predictor failed'')\<rparr>"

definition failing_encoder_engine :: FaceRecognizer_cpp where
  "failing_encoder_engine =
     working_engine\<lparr>face_encoder := (\<lambda>img parts. Inl ''encoder failed'')\<rparr>"

definition test_image :: ImageMatrix where
  "test_image = \<lparr>Pixels = replicate 30000 0, Width = 100, Height = 100, Stride = 300\<rparr>"

definition opened :: "FaceRecognizer_cpp \<Rightarrow> FaceRecognizer" where
  "opened engine = \<lparr>rec = Some engine, initialized = True\<rparr>"

section \<open>Lemmas about the codec\<close>

text \<open>Byte \<open>k\<close> of a word holds exactly its bits \<open>8k .. 8k+7\<close>.\<close>

lemma bit_byte_of_word:
  fixes v :: "'a::len word"
  shows "bit (push_bit k (ucast (ucast (drop_bit k v) :: byte) :: 'a word)) n
           \<longleftrightarrow> k \<le> n \<and> n < k + 8 \<and> bit v n"
proof (cases "k \<le> n")
  case True
  then obtain m where m: "n = k + m" by (auto simp: le_iff_add)
  show ?thesis
    by (auto simp: m bit_simps dest: bit_imp_le_length)
next
  case False
  then show ?thesis by (simp add: bit_simps)
qed

lemma bit_low_byte_of_word:
  fixes v :: "'a::len word"
  shows "bit (ucast (ucast v :: byte) :: 'a word) n \<longleftrightarrow> n < 8 \<and> bit v n"
  using bit_byte_of_word [of 0 v n] by simp

lemma Uint32_PutUint32: "Uint32 (PutUint32 v) = v"
proof (rule bit_word_eqI)
  fix n assume "n < LENGTH(32)"
  then have n: "n < 32" by simp
  have "bit (Uint32 (PutUint32 v)) n \<longleftrightarrow>
      (n < 8 \<or> 8 \<le> n \<and> n < 16 \<or> 16 \<le> n \<and> n < 24 \<or> 24 \<le> n \<and> n < 32) \<and> bit v n"
    unfolding Uint32_def PutUint32_def
    by (simp add: bit_or_iff bit_byte_of_word bit_low_byte_of_word) blast
  also have "\<dots> \<longleftrightarrow> bit v n"
    using n by auto
  finally show "bit (Uint32 (PutUint32 v)) n \<longleftrightarrow> bit v n" .
qed

lemma Uint64_PutUint64: "Uint64 (PutUint64 v) = v"
proof (rule bit_word_eqI)
  fix n assume "n < LENGTH(64)"
  then have n: "n < 64" by simp
  have "bit (Uint64 (PutUint64 v)) n \<longleftrightarrow>
      (n < 8 \<or> 8 \<le> n \<and> n < 16 \<or> 16 \<le> n \<and> n < 24 \<or> 24 \<le> n \<and> n < 32 \<or>
       32 \<le> n \<and> n < 40 \<or> 40 \<le> n \<and> n < 48 \<or> 48 \<le> n \<and> n < 56 \<or> 56 \<le> n \<and> n < 64) \<and> bit v n"
    unfolding Uint64_def PutUint64_def
    by (simp add: bit_or_iff bit_byte_of_word bit_low_byte_of_word) blast
  also have "\<dots> \<longleftrightarrow> bit v n"
    using n by auto
  finally show "bit (Uint64 (PutUint64 v)) n \<longleftrightarrow> bit v n" .
qed

text \<open>
  The number a decoded word denotes: byte \<open>k\<close> of the eight weighs \<open>256 ^ k\<close>.
\<close>

lemma unat_byte_less: "unat (c :: byte) < 256"
  using unsigned_less [of c, where 'a = nat] by simp

lemma unat_ucast_byte: "unat (ucast (c :: byte) :: 64 word) = unat c"
  using unat_byte_less [of c] by (simp add: unsigned_ucast_eq take_bit_nat_eq_self)

lemma unat_or_push_byte:
  fixes w :: "64 word" and c :: byte
  assumes "unat w < 2 ^ n" "n + 8 \<le> 64"
  shows "unat (w OR push_bit n (ucast c)) = unat w + unat c * 2 ^ n"
proof -
  let ?p = "push_bit n (ucast c) :: 64 word"
  have tw: "take_bit n (unat w) = unat w"
    using assms(1) by (simp add: take_bit_nat_eq_self)
  have low: "bit w m \<Longrightarrow> m < n" for m
  proof -
    assume "bit w m"
    then have "bit (unat w) m" by (simp add: bit_unsigned_iff)
    then have "bit (take_bit n (unat w)) m" by (simp only: tw)
    then show "m < n" by (simp add: bit_take_bit_iff)
  qed
  have "w AND ?p = 0"
    by (rule bit_word_eqI) (auto simp: bit_and_iff bit_push_bit_iff dest: low)
  then have sum: "w OR ?p = w + ?p"
    by (simp add: disjunctive_add_eq_or)
  have "unat c * 2 ^ n < 256 * 2 ^ n"
    using unat_byte_less [of c] by simp
  moreover have "(256 :: nat) * 2 ^ n = 2 ^ (n + 8)"
    by (simp add: power_add)
  moreover have "(2 :: nat) ^ (n + 8) \<le> 2 ^ 64"
    using assms(2) by (intro power_increasing) simp_all
  ultimately have small: "unat c * 2 ^ n < 2 ^ 64" by linarith
  have "unat ?p = take_bit LENGTH(64) (push_bit n (unat (ucast c :: 64 word)))"
    by (rule unsigned_push_bit_eq)
  also have "\<dots> = take_bit 64 (unat c * 2 ^ n)"
    by (simp add: unat_ucast_byte push_bit_eq_mult)
  also have "\<dots> = unat c * 2 ^ n"
    using small by (simp add: take_bit_nat_eq_self)
  finally have p: "unat ?p = unat c * 2 ^ n" .
  have "unat c * 2 ^ n \<le> 255 * 2 ^ n"
    using unat_byte_less [of c] by simp
  then have "unat w + unat c * 2 ^ n < 2 ^ n + 255 * 2 ^ n"
    using assms(1) by (intro add_less_le_mono)
  also have "\<dots> = 256 * 2 ^ n" by simp
  also have "\<dots> = 2 ^ (n + 8)" by (simp add: power_add)
  also have "\<dots> \<le> 2 ^ 64"
    using assms(2) by (intro power_increasing) simp_all
  finally have "unat w + unat ?p < 2 ^ LENGTH(64)"
    by (simp add: p)
  then have "unat (w + ?p) = unat w + unat ?p"
    by (rule iffD1 [OF unat_add_lem])
  then show ?thesis
    by (simp add: sum p)
qed

lemma unat_or_push_byte_less:
  fixes w :: "64 word" and c :: byte
  assumes "unat w < 2 ^ n" "n + 8 \<le> 64"
  shows "unat (w OR push_bit n (ucast c)) < 2 ^ (n + 8)"
proof -
  have "unat c * 2 ^ n \<le> 255 * 2 ^ n"
    using unat_byte_less [of c] by simp
  then have "unat w + unat c * 2 ^ n < 2 ^ n + 255 * 2 ^ n"
    using assms(1) by (intro add_less_le_mono)
  also have "\<dots> = 2 ^ (n + 8)" by (simp add: power_add)
  finally show ?thesis
    by (simp add: unat_or_push_byte [OF assms])
qed

lemma unat_Uint64:
  "unat (Uint64 b) = (\<Sum>k<8. unat (b ! k) * 256 ^ k)"
proof -
  define w1 :: "64 word" where "w1 = ucast (b ! 0)"
  define w2 where "w2 = w1 OR push_bit 8 (ucast (b ! 1))"
  define w3 where "w3 = w2 OR push_bit 16 (ucast (b ! 2))"
  define w4 where "w4 = w3 OR push_bit 24 (ucast (b ! 3))"
  define w5 where "w5 = w4 OR push_bit 32 (ucast (b ! 4))"
  define w6 where "w6 = w5 OR push_bit 40 (ucast (b ! 5))"
  define w7 where "w7 = w6 OR push_bit 48 (ucast (b ! 6))"
  define w8 where "w8 = w7 OR push_bit 56 (ucast (b ! 7))"
  have u: "Uint64 b = w8"
    by (simp add: Uint64_def w8_def w7_def w6_def w5_def w4_def w3_def w2_def w1_def or.assoc)
  have l1: "unat w1 < 2 ^ 8"
    using unat_byte_less [of "b ! 0"] by (simp add: w1_def unat_ucast_byte)
  have l2: "unat w2 < 2 ^ 16"
    using unat_or_push_byte_less [OF l1] by (simp add: w2_def)
  have l3: "unat w3 < 2 ^ 24"
    using unat_or_push_byte_less [OF l2] by (simp add: w3_def)
  have l4: "unat w4 < 2 ^ 32"
    using unat_or_push_byte_less [OF l3] by (simp add: w4_def)
  have l5: "unat w5 < 2 ^ 40"
    using unat_or_push_byte_less [OF l4] by (simp add: w5_def)
  have l6: "unat w6 < 2 ^ 48"
    using unat_or_push_byte_less [OF l5] by (simp add: w6_def)
  have l7: "unat w7 < 2 ^ 56"
    using unat_or_push_byte_less [OF l6] by (simp add: w7_def)
  have e1: "unat w1 = unat (b ! 0)"
    by (simp add: w1_def unat_ucast_byte)
  have e2: "unat w2 = unat w1 + unat (b ! 1) * 2 ^ 8"
    unfolding w2_def by (rule unat_or_push_byte [OF l1]) simp
  have e3: "unat w3 = unat w2 + unat (b ! 2) * 2 ^ 16"
    unfolding w3_def by (rule unat_or_push_byte [OF l2]) simp
  have e4: "unat w4 = unat w3 + unat (b ! 3) * 2 ^ 24"
    unfolding w4_def by (rule unat_or_push_byte [OF l3]) simp
  have e5: "unat w5 = unat w4 + unat (b ! 4) * 2 ^ 32"
    unfolding w5_def by (rule unat_or_push_byte [OF l4]) simp
  have e6: "unat w6 = unat w5 + unat (b ! 5) * 2 ^ 40"
    unfolding w6_def by (rule unat_or_push_byte [OF l5]) simp
  have e7: "unat w7 = unat w6 + unat (b ! 6) * 2 ^ 48"
    unfolding w7_def by (rule unat_or_push_byte [OF l6]) simp
  have e8: "unat w8 = unat w7 + unat (b ! 7) * 2 ^ 56"
    unfolding w8_def by (rule unat_or_push_byte [OF l7]) simp
  have "{..<8::nat} = {0, 1, 2, 3, 4, 5, 6, 7}"
    by auto
  then have "(\<Sum>k<8. unat (b ! k) * 256 ^ k) =
      unat (b ! 0) + unat (b ! 1) * 2 ^ 8 + unat (b ! 2) * 2 ^ 16 + unat (b ! 3) * 2 ^ 24 +
      unat (b ! 4) * 2 ^ 32 + unat (b ! 5) * 2 ^ 40 + unat (b ! 6) * 2 ^ 48 + unat (b ! 7) * 2 ^ 56"
    by simp
  then show ?thesis
    unfolding u e8 e7 e6 e5 e4 e3 e2 e1 by simp
qed

lemma length_PutUint64 [simp]: "length (PutUint64 v) = 8"
  by (simp add: PutUint64_def)

lemma length_PutUint32 [simp]: "length (PutUint32 v) = 4"
  by (simp add: PutUint32_def)

lemma binary_Read_float64_Put: "binary_Read_float64 (PutUint64 v @ r) = Inr (v, r)"
  by (simp add: binary_Read_float64_def ReadFull_def Uint64_PutUint64)

lemma binary_Read_uint32_Put: "binary_Read_uint32 (PutUint32 v @ r) = Inr (v, r)"
  by (simp add: binary_Read_uint32_def ReadFull_def Uint32_PutUint32)

lemma binary_Read_float64_short:
  "length r < 8 \<Longrightarrow> binary_Read_float64 r = Inl (if r = [] then EOF else ErrUnexpectedEOF)"
  by (simp add: binary_Read_float64_def ReadFull_def)

lemma binary_Read_float64_long:
  "8 \<le> length r \<Longrightarrow> binary_Read_float64 r = Inr (Uint64 (take 8 r), drop 8 r)"
  by (simp add: binary_Read_float64_def ReadFull_def)

lemma write_values_Buffer: "write_values Buffer_Write buf vs = (buf @ payload vs, None)"
  by (induction vs arbitrary: buf) (simp_all add: payload_def Buffer_Write_def)

lemma write_encodings_Buffer:
  "write_encodings Buffer_Write buf encs = (buf @ concat (map payload encs), None)"
  by (induction encs arbitrary: buf) (simp_all add: write_values_Buffer)

lemma WriteEncodings_Buffer:
  "WriteEncodings Buffer_Write buf encs =
     (buf @ PutUint32 (word_of_nat (length encs)) @ concat (map payload encs), None)"
  by (simp add: WriteEncodings_def Buffer_Write_def write_encodings_Buffer)

lemma read_values_payload:
  "k \<le> length vs \<Longrightarrow> length enc = length vs \<Longrightarrow>
   read_values [k..<length vs] enc (payload (drop k vs) @ r) = (take k enc @ drop k vs, r, None)"
proof (induction "length vs - k" arbitrary: k enc)
  case 0
  then show ?case by (simp add: payload_def)
next
  case (Suc d)
  then have k: "k < length vs" by simp
  then have dk: "drop k vs = vs ! k # drop (Suc k) vs"
    by (simp add: Cons_nth_drop_Suc)
  have up: "[k..<length vs] = k # [Suc k..<length vs]"
    using k by (simp add: upt_conv_Cons)
  have step: "read_values [Suc k..<length vs] (enc[k := vs ! k]) (payload (drop (Suc k) vs) @ r)
      = (take (Suc k) (enc[k := vs ! k]) @ drop (Suc k) vs, r, None)"
    using Suc.hyps(1) [of "Suc k" "enc[k := vs ! k]"] Suc.hyps(2) Suc.prems k by simp
  have tk: "take (Suc k) (enc[k := vs ! k]) = take k enc @ [vs ! k]"
    using k Suc.prems by (simp add: take_Suc_conv_app_nth)
  show ?case
    by (simp add: up dk payload_def binary_Read_float64_Put step [unfolded payload_def] tk)
qed

lemma read_values_payload_all:
  "length enc = length vs \<Longrightarrow> read_values [0..<length vs] enc (payload vs @ r) = (vs, r, None)"
  using read_values_payload [of 0 vs enc r] by simp

lemma read_values_short:
  "length r < 8 * length idx \<Longrightarrow>
   \<exists>enc' r'. read_values idx enc r = (enc', r', Some (if length r mod 8 = 0 then EOF else ErrUnexpectedEOF))"
proof (induction idx arbitrary: enc r)
  case Nil
  then show ?case by simp
next
  case (Cons i idx)
  show ?case
  proof (cases "length r < 8")
    case True
    then have "length r mod 8 = 0 \<longleftrightarrow> r = []" by auto
    with True show ?thesis
      by (simp add: binary_Read_float64_short)
  next
    case False
    then have len: "8 \<le> length r" by simp
    have "length (drop 8 r) < 8 * length idx"
      using Cons.prems len by simp
    from Cons.IH [OF this, of "enc[i := Uint64 (take 8 r)]"]
    obtain enc' r' where
      "read_values idx (enc[i := Uint64 (take 8 r)]) (drop 8 r)
         = (enc', r', Some (if length (drop 8 r) mod 8 = 0 then EOF else ErrUnexpectedEOF))"
      by blast
    moreover have "length (drop 8 r) mod 8 = length r mod 8"
      using len by (simp add: le_mod_geq)
    ultimately show ?thesis
      using len by (simp add: binary_Read_float64_long)
  qed
qed


lemma read_values_upt_long:
  "8 * (n - k) \<le> length r \<Longrightarrow> k \<le> n \<Longrightarrow> length enc = n \<Longrightarrow>
   read_values [k..<n] enc r =
     (take k enc @ map (\<lambda>i. Uint64 (take 8 (drop (8 * (i - k)) r))) [k..<n], drop (8 * (n - k)) r, None)"
proof (induction "n - k" arbitrary: k enc r)
  case 0
  then show ?case by simp
next
  case (Suc d)
  then have k: "k < n" by simp
  then have len: "8 \<le> length r" using Suc.prems by simp
  have up: "[k..<n] = k # [Suc k..<n]"
    using k by (simp add: upt_conv_Cons)
  have step: "read_values [Suc k..<n] (enc[k := Uint64 (take 8 r)]) (drop 8 r) =
     (take (Suc k) (enc[k := Uint64 (take 8 r)]) @
        map (\<lambda>i. Uint64 (take 8 (drop (8 * (i - Suc k)) (drop 8 r)))) [Suc k..<n],
      drop (8 * (n - Suc k)) (drop 8 r), None)"
    using Suc.hyps(1) [of "Suc k" "drop 8 r" "enc[k := Uint64 (take 8 r)]"] Suc.hyps(2) Suc.prems k
    by simp
  have tk: "take (Suc k) (enc[k := Uint64 (take 8 r)]) = take k enc @ [Uint64 (take 8 r)]"
    using k Suc.prems by (simp add: take_Suc_conv_app_nth)
  have mp: "map (\<lambda>i. Uint64 (take 8 (drop (8 * (i - Suc k)) (drop 8 r)))) [Suc k..<n]
      = map (\<lambda>i. Uint64 (take 8 (drop (8 * (i - k)) r))) [Suc k..<n]"
  proof (rule map_cong [OF refl])
    fix i assume "i \<in> set [Suc k..<n]"
    then have "8 * (i - Suc k) + 8 = 8 * (i - k)" by auto
    then show "Uint64 (take 8 (drop (8 * (i - Suc k)) (drop 8 r))) = Uint64 (take 8 (drop (8 * (i - k)) r))"
      by (simp add: add.commute)
  qed
  have dr: "drop (8 * (n - Suc k)) (drop 8 r) = drop (8 * (n - k)) r"
  proof -
    have "8 * (n - Suc k) + 8 = 8 * (n - k)" using k by auto
    then show ?thesis by (simp add: add.commute)
  qed
  have hd: "map (\<lambda>i. Uint64 (take 8 (drop (8 * (i - k)) r))) [k..<n]
      = Uint64 (take 8 r) # map (\<lambda>i. Uint64 (take 8 (drop (8 * (i - k)) r))) [Suc k..<n]"
    by (simp add: up)
  have "read_values [k..<n] enc r = read_values [Suc k..<n] (enc[k := Uint64 (take 8 r)]) (drop 8 r)"
    using len by (simp add: up binary_Read_float64_long)
  also note step
  finally show ?case
    by (simp only: tk mp dr hd append_assoc append_Cons append_Nil)
qed


lemma read_encodings_payload:
  "k \<le> length encs \<Longrightarrow> length es = length encs \<Longrightarrow> list_all (\<lambda>e. length e = 128) encs \<Longrightarrow>
   list_all (\<lambda>e. length e = 128) es \<Longrightarrow>
   read_encodings [k..<length encs] es (concat (map payload (drop k encs)) @ r)
     = Inr (take k es @ drop k encs)"
proof (induction "length encs - k" arbitrary: k es)
  case 0
  then show ?case by simp
next
  case (Suc d)
  then have k: "k < length encs" by simp
  then have dk: "drop k encs = encs ! k # drop (Suc k) encs"
    by (simp add: Cons_nth_drop_Suc)
  have up: "[k..<length encs] = k # [Suc k..<length encs]"
    using k by (simp add: upt_conv_Cons)
  have l1: "length (encs ! k) = 128"
    using Suc.prems(3) k by (simp add: list_all_length)
  have l2: "length (es ! k) = 128"
    using Suc.prems(2,4) k by (simp add: list_all_length)
  have row: "read_values [0..<128] (es ! k) (payload (encs ! k) @ concat (map payload (drop (Suc k) encs)) @ r)
      = (encs ! k, concat (map payload (drop (Suc k) encs)) @ r, None)"
    using read_values_payload_all [of "es ! k" "encs ! k"] l1 l2 by simp
  have all': "list_all (\<lambda>e. length e = 128) (es[k := encs ! k])"
    using Suc.prems(2,4) l1 k by (auto simp: list_all_length nth_list_update)
  have step: "read_encodings [Suc k..<length encs] (es[k := encs ! k])
       (concat (map payload (drop (Suc k) encs)) @ r)
      = Inr (take (Suc k) (es[k := encs ! k]) @ drop (Suc k) encs)"
    using Suc.hyps(1) [of "Suc k" "es[k := encs ! k]"] Suc.hyps(2) Suc.prems(2,3) k all' by simp
  have tk: "take (Suc k) (es[k := encs ! k]) = take k es @ [encs ! k]"
    using k Suc.prems(2) by (simp add: take_Suc_conv_app_nth)
  show ?case
    by (simp add: up dk row step tk)
qed

lemma ReadEncodings_WriteEncodings:
  assumes "length encs < 2 ^ 32" and "list_all (\<lambda>e. length e = 128) encs"
  shows "ReadEncodings (fst (WriteEncodings Buffer_Write [] encs)) = Inr encs"
proof -
  have cnt: "unat (word_of_nat (length encs) :: 32 word) = length encs"
    using assms(1) by (simp add: unat_of_nat)
  have "read_encodings [0..<length encs] (replicate (length encs) (replicate 128 0))
      (concat (map payload (drop 0 encs)) @ []) = Inr (take 0 (replicate (length encs) (replicate 128 0)) @ drop 0 encs)"
    using assms(2) by (intro read_encodings_payload) (simp_all add: list_all_length)
  then show ?thesis
    by (simp add: WriteEncodings_Buffer ReadEncodings_def binary_Read_uint32_Put cnt)
qed

lemma BytesToEncoding_long:
  assumes "1024 \<le> length data"
  shows "BytesToEncoding data = (map (\<lambda>i. Uint64 (take 8 (drop (8 * i) data))) [0..<128], None)"
  using read_values_upt_long [of 128 0 data "replicate 128 0"] assms
  by (simp add: BytesToEncoding_def)

lemma BytesToEncoding_short:
  assumes "length data < 1024"
  shows "snd (BytesToEncoding data) = Some (if length data mod 8 = 0 then EOF else ErrUnexpectedEOF)"
proof -
  have "length data < 8 * length [0..<128::nat]" using assms by simp
  from read_values_short [OF this, of "replicate 128 0"]
  show ?thesis by (auto simp: BytesToEncoding_def)
qed

lemma BytesToEncoding_prefix:
  assumes "1024 \<le> length data"
  shows "BytesToEncoding data = BytesToEncoding (take 1024 data)"
proof -
  have "map (\<lambda>i. Uint64 (take 8 (drop (8 * i) (take 1024 data)))) [0..<128]
      = map (\<lambda>i. Uint64 (take 8 (drop (8 * i) data))) [0..<128]"
  proof (rule map_cong [OF refl])
    fix i :: nat assume "i \<in> set [0..<128]"
    then have "8 * i + 8 \<le> 1024" by simp
    then have "take 8 (drop (8 * i) (take 1024 data)) = take 8 (drop (8 * i) data)"
      by (simp add: drop_take min_def)
    then show "Uint64 (take 8 (drop (8 * i) (take 1024 data))) = Uint64 (take 8 (drop (8 * i) data))"
      by simp
  qed
  moreover have "1024 \<le> length (take 1024 data)" using assms by simp
  ultimately show ?thesis
    using assms by (simp only: BytesToEncoding_long)
qed



lemma nth_between:
  "length pre = p \<Longrightarrow> p \<le> n \<Longrightarrow> n - p < m \<Longrightarrow> (pre @ replicate m x @ post) ! n = x"
  by (simp add: nth_append)

section \<open>Lemmas about the matching engine\<close>

subsection \<open>Rounding\<close>

text \<open>
  A value of the format rounds to itself; \<open>2 ^ 53 + 1\<close> lies half way between two values
  of the format and rounds to the even one, \<open>2 ^ 53\<close>.
\<close>

lemma round_half_even_of_int [simp]: "round_half_even (of_int n) = n"
  by (simp add: round_half_even_def)

lemma ulp_pos: "0 < ulp a"
  by (simp add: ulp_def)

lemma round64_representable:
  assumes m: "\<bar>m\<bar> < 2 ^ 53" and k: "- 1074 \<le> k" "k \<le> 971"
  shows "round64 (of_int m * 2 powr (of_int k)) = Finite (of_int m * 2 powr (of_int k))"
proof (cases "m = 0")
  case True
  then show ?thesis by (simp add: round64_def)
next
  case False
  define x :: real where "x = of_int m * 2 powr (of_int k)"
  define a where "a = \<bar>x\<bar>"
  have a: "a = of_int \<bar>m\<bar> * 2 powr (of_int k)"
    by (simp add: a_def x_def abs_mult)
  have m1: "1 \<le> \<bar>m\<bar>" using False by simp
  have apos: "0 < a" using False by (simp add: a)
  have xnz: "x \<noteq> 0" using False by (simp add: x_def)
  define e where "e = max \<lfloor>log 2 a\<rfloor> (-1022)"
  have "a < 2 ^ 53 * 2 powr (of_int k)"
    unfolding a using m by (intro mult_strict_right_mono) simp_all
  also have "\<dots> = 2 powr (of_int (53 + k))"
    by (simp add: powr_add powr_realpow [symmetric])
  finally have up: "a < 2 powr (of_int (53 + k))" .
  have "log 2 a < of_int (53 + k)"
    using up apos by (simp add: less_powr_iff)
  then have "\<lfloor>log 2 a\<rfloor> < 53 + k"
    by (simp add: floor_less_iff)
  then have ek: "e - 52 \<le> k" using k by (simp add: e_def)
  define d where "d = nat (k - (e - 52))"
  have d: "of_int k = of_int (e - 52) + real d"
    using ek by (simp add: d_def)
  have u: "ulp a = 2 powr (of_int (e - 52))"
    by (simp add: ulp_def e_def)
  have upos: "0 < ulp a" by (simp add: u)
  have a2: "a = of_int (\<bar>m\<bar> * 2 ^ d) * ulp a"
    unfolding u by (simp add: a d powr_add powr_realpow)
  have q: "a / ulp a = of_int (\<bar>m\<bar> * 2 ^ d)"
    using upos by (subst a2) simp
  have r: "of_int (round_half_even (a / ulp a)) * ulp a = a"
    unfolding q round_half_even_of_int using a2 by simp
  have k971: "2 powr (of_int k) \<le> (2::real) powr (of_int 971)"
    by (rule powr_mono) (use k in simp_all)
  have p971: "(2::real) powr (of_int 971) = 2 ^ 971"
    by (subst powr_realpow [symmetric]) simp_all
  have "a < 2 ^ 53 * 2 powr (of_int k)"
    by fact
  also have "\<dots> \<le> 2 ^ 53 * 2 ^ 971"
    using k971 unfolding p971 by (rule mult_left_mono) simp
  also have "\<dots> = 2 ^ 1024"
    by simp
  finally have small: "\<not> 2 ^ 1024 \<le> a" by simp
  have "round64 x = Finite (sgn x * a)"
    using xnz small r by (simp add: round64_def Let_def a_def [symmetric])
  also have "sgn x * a = x"
    unfolding a_def by (rule sgn_mult_abs)
  finally show ?thesis by (simp add: x_def)
qed

lemma round64_of_int: "\<bar>m\<bar> < 2 ^ 53 \<Longrightarrow> round64 (of_int m) = Finite (of_int m)"
  using round64_representable [of m 0] by simp

lemma round64_power2: "k \<le> 971 \<Longrightarrow> round64 (2 ^ k) = Finite (2 ^ k)"
  using round64_representable [of 1 "int k"] by (simp add: powr_realpow)

lemma floor_log2_tie: "\<lfloor>log 2 9007199254740993\<rfloor> = 53"
proof -
  have "(2::real) powr (of_int 53) = 2 ^ 53" "(2::real) powr (of_int 53 + 1) = 2 ^ 54"
    by (subst powr_realpow [symmetric], simp, simp)+
  then show ?thesis
    by (subst floor_log_eq_powr_iff) simp_all
qed

lemma round64_tie: "round64 (2 ^ 53 + 1) = Finite (2 ^ 53)"
proof -
  have u: "ulp 9007199254740993 = 2"
    by (simp add: ulp_def floor_log2_tie)
  have fl: "\<lfloor>(9007199254740993 :: real) / 2\<rfloor> = 4503599627370496"
    by (simp add: floor_eq_iff)
  have "round_half_even (9007199254740993 / 2) = 4503599627370496"
    unfolding round_half_even_def fl Let_def by simp
  then show ?thesis
    by (simp add: round64_def u Let_def)
qed

lemma round64_0 [simp]: "round64 0 = Finite 0"
  by (simp add: round64_def)

lemma round_half_even_bounds:
  "q - 1/2 \<le> of_int (round_half_even q)" "of_int (round_half_even q) \<le> q + 1/2"
  unfolding round_half_even_def Let_def by (auto; linarith)+

lemma tolerance_plus_one:
  assumes "0 < t" "t + 1 < 2 ^ 53"
  shows "flt (Finite t) (fadd (Finite t) (Finite 1))"
proof -
  define a where "a = t + 1"
  have a1: "1 < a" "a < 2 ^ 53" using assms by (simp_all add: a_def)
  have "0 \<le> log 2 a"
    using a1 by simp
  then have lo: "0 \<le> \<lfloor>log 2 a\<rfloor>" by simp
  have "log 2 a < of_int 53"
    using a1 by (simp add: log_less_iff)
  then have hi: "\<lfloor>log 2 a\<rfloor> \<le> 52"
    by (simp add: floor_less_iff)
  define u where "u = ulp a"
  have u: "u = 2 powr (of_int \<lfloor>log 2 a\<rfloor> - 52)"
    using lo by (simp add: u_def ulp_def max_def)
  have upos: "0 < u" by (simp add: u)
  have "u \<le> 2 powr 0"
    unfolding u using hi by (intro powr_mono) simp_all
  then have u1: "u \<le> 1" by simp
  define n where "n = round_half_even (a / u)"
  have "(a / u - 1/2) * u \<le> of_int n * u"
    using round_half_even_bounds(1) [of "a / u"] upos unfolding n_def
    by (intro mult_right_mono) simp_all
  then have low: "a - u / 2 \<le> of_int n * u"
    using upos by (simp add: algebra_simps)
  have "of_int n * u \<le> (a / u + 1/2) * u"
    using round_half_even_bounds(2) [of "a / u"] upos unfolding n_def
    by (intro mult_right_mono) simp_all
  then have high: "of_int n * u \<le> a + u / 2"
    using upos by (simp add: algebra_simps)
  have gt: "t < of_int n * u"
    using low u1 by (simp add: a_def)
  have "of_int n * u < 2 ^ 53 + 1"
    using high u1 a1 by simp
  also have "\<dots> < (2 ^ 1024 :: real)" by simp
  finally have small: "\<not> 2 ^ 1024 \<le> of_int n * u" by simp
  have "round64 a = Finite (of_int n * u)"
    using a1 small by (simp add: round64_def Let_def n_def u_def)
  then show ?thesis
    using gt by (simp add: a_def)
qed

subsection \<open>The order of the comparisons\<close>

lemma fle_not_NaN: "fle x y \<Longrightarrow> x \<noteq> NaN \<and> y \<noteq> NaN"
  by (cases x; cases y) simp_all

lemma flt_not_NaN: "flt x y \<Longrightarrow> x \<noteq> NaN \<and> y \<noteq> NaN"
  by (cases x; cases y) simp_all

lemma flt_fle: "flt x y \<Longrightarrow> fle x y"
  by (cases x; cases y) simp_all

lemma flt_fle_trans: "flt x y \<Longrightarrow> fle y z \<Longrightarrow> flt x z"
  by (cases x; cases y; cases z) simp_all

lemma fle_flt_trans: "fle x y \<Longrightarrow> flt y z \<Longrightarrow> flt x z"
  by (cases x; cases y; cases z) simp_all

lemma not_flt_fle: "x \<noteq> NaN \<Longrightarrow> y \<noteq> NaN \<Longrightarrow> \<not> flt x y \<Longrightarrow> fle y x"
  by (cases x; cases y) simp_all

lemma flt_irrefl: "\<not> flt x x"
  by (cases x) simp_all

subsection \<open>The scan\<close>

lemma best_scan_inv:
  "best_scan (enumerate k ds) tol bi bd = (bi', bd') \<Longrightarrow>
     (bi' = bi \<and> bd' = bd \<and> (\<forall>x\<in>set ds. \<not> (fle x tol \<and> flt x bd))) \<or>
     (\<exists>j<length ds. bi' = int (k + j) \<and> bd' = ds ! j \<and> fle (ds ! j) tol \<and> flt (ds ! j) bd \<and>
        (\<forall>x\<in>set ds. fle x tol \<longrightarrow> fle (ds ! j) x) \<and>
        (\<forall>x\<in>set (take j ds). fle x tol \<longrightarrow> flt (ds ! j) x))"
proof (induction ds arbitrary: k bi bd)
  case Nil
  then show ?case by simp
next
  case (Cons d ds)
  show ?case
  proof (cases "fle d tol \<and> flt d bd")
    case True
    with Cons.prems have run: "best_scan (enumerate (Suc k) ds) tol (int k) d = (bi', bd')"
      by simp
    from True have dn: "d \<noteq> NaN" by (auto dest: fle_not_NaN)
    from Cons.IH [OF run] show ?thesis
    proof (elim disjE conjE exE)
      assume a: "bi' = int k" "bd' = d" "\<forall>x\<in>set ds. \<not> (fle x tol \<and> flt x d)"
      have "\<forall>x\<in>set ds. fle x tol \<longrightarrow> fle d x"
        using a(3) dn by (auto dest: fle_not_NaN intro: not_flt_fle)
      moreover have "fle d d"
        using dn by (cases d) simp_all
      ultimately have "0 < length (d # ds) \<and> bi' = int (k + 0) \<and> bd' = (d # ds) ! 0 \<and>
          fle ((d # ds) ! 0) tol \<and> flt ((d # ds) ! 0) bd \<and>
          (\<forall>x\<in>set (d # ds). fle x tol \<longrightarrow> fle ((d # ds) ! 0) x) \<and>
          (\<forall>x\<in>set (take 0 (d # ds)). fle x tol \<longrightarrow> flt ((d # ds) ! 0) x)"
        using True a(1,2) by simp
      then show ?thesis by blast
    next
      fix j
      assume a: "j < length ds" "bi' = int (Suc k + j)" "bd' = ds ! j" "fle (ds ! j) tol"
        "flt (ds ! j) d" "\<forall>x\<in>set ds. fle x tol \<longrightarrow> fle (ds ! j) x"
        "\<forall>x\<in>set (take j ds). fle x tol \<longrightarrow> flt (ds ! j) x"
      have "flt (ds ! j) bd"
        using a(5) True by (blast intro: flt_fle_trans flt_fle)
      moreover have "fle (ds ! j) d"
        using a(5) by (rule flt_fle)
      ultimately have "Suc j < length (d # ds) \<and> bi' = int (k + Suc j) \<and> bd' = (d # ds) ! Suc j \<and>
          fle ((d # ds) ! Suc j) tol \<and> flt ((d # ds) ! Suc j) bd \<and>
          (\<forall>x\<in>set (d # ds). fle x tol \<longrightarrow> fle ((d # ds) ! Suc j) x) \<and>
          (\<forall>x\<in>set (take (Suc j) (d # ds)). fle x tol \<longrightarrow> flt ((d # ds) ! Suc j) x)"
        using a by simp
      then show ?thesis by blast
    qed
  next
    case False
    with Cons.prems have run: "best_scan (enumerate (Suc k) ds) tol bi bd = (bi', bd')"
      by auto
    from Cons.IH [OF run] show ?thesis
    proof (elim disjE conjE exE)
      assume "bi' = bi" "bd' = bd" "\<forall>x\<in>set ds. \<not> (fle x tol \<and> flt x bd)"
      with False show ?thesis by auto
    next
      fix j
      assume a: "j < length ds" "bi' = int (Suc k + j)" "bd' = ds ! j" "fle (ds ! j) tol"
        "flt (ds ! j) bd" "\<forall>x\<in>set ds. fle x tol \<longrightarrow> fle (ds ! j) x"
        "\<forall>x\<in>set (take j ds). fle x tol \<longrightarrow> flt (ds ! j) x"
      have far: "fle d tol \<longrightarrow> flt (ds ! j) d"
      proof
        assume q: "fle d tol"
        with False have "\<not> flt d bd" by simp
        moreover have "d \<noteq> NaN" "bd \<noteq> NaN"
          using q a(5) by (auto dest: fle_not_NaN flt_not_NaN)
        ultimately have "fle bd d" by (intro not_flt_fle)
        with a(5) show "flt (ds ! j) d" by (rule flt_fle_trans)
      qed
      then have "fle d tol \<longrightarrow> fle (ds ! j) d"
        by (blast intro: flt_fle)
      with far have "Suc j < length (d # ds) \<and> bi' = int (k + Suc j) \<and> bd' = (d # ds) ! Suc j \<and>
          fle ((d # ds) ! Suc j) tol \<and> flt ((d # ds) ! Suc j) bd \<and>
          (\<forall>x\<in>set (d # ds). fle x tol \<longrightarrow> fle ((d # ds) ! Suc j) x) \<and>
          (\<forall>x\<in>set (take (Suc j) (d # ds)). fle x tol \<longrightarrow> flt ((d # ds) ! Suc j) x)"
        using a by simp
      then show ?thesis by blast
    qed
  qed
qed

lemma FaceDistances_map:
  "FaceDistances known probe = map (\<lambda>encoding. FaceDistance encoding probe) known"
  by (simp add: FaceDistances_def)

lemma FindBestMatch_scan:
  assumes "flt (Finite 0) tolerance"
  shows "FindBestMatch known probe tolerance =
     (case best_scan (enumerate 0 (FaceDistances known probe)) tolerance (-1)
             (fadd tolerance (Finite 1)) of
        (bestIndex, bestDistance) \<Rightarrow>
          if bestIndex = -1 then (-1, Finite 0) else (bestIndex, bestDistance))"
proof -
  have "\<not> fle tolerance (Finite 0)"
    using assms by (cases tolerance) simp_all
  then show ?thesis
    by (cases known) (simp_all add: FindBestMatch_def FaceDistances_def)
qed

subsection \<open>Distances along one axis\<close>

lemma distance_step_zero:
  assumes "0 < i" "i < 128" "round64 s = Finite s"
  shows "distance_step (Finite a # replicate 127 (Finite 0)) (replicate 128 (Finite 0))
           (Finite s) i = Finite s"
proof -
  have "(Finite a # replicate 127 (Finite 0)) ! i = Finite 0"
    using assms(1,2) by (simp add: nth_Cons')
  moreover have "replicate 128 (Finite 0) ! i = Finite 0"
    using assms(2) by simp
  ultimately show ?thesis
    using assms(3) by (simp add: distance_step_def fsub_def)
qed

lemma distance_steps_zero:
  assumes "\<forall>i\<in>set is. 0 < i \<and> i < 128" "round64 s = Finite s"
  shows "foldl (distance_step (Finite a # replicate 127 (Finite 0)) (replicate 128 (Finite 0)))
           (Finite s) is = Finite s"
  using assms by (induction "is") (simp_all add: distance_step_zero)

lemma FaceDistance_axis:
  assumes "round64 a = Finite a" "round64 (a * a) = Finite (a * a)"
  shows "FaceDistance (Finite a # replicate 127 (Finite 0)) (replicate 128 (Finite 0))
           = fsqrt (Finite (a * a))"
proof -
  have u: "[0..<128] = 0 # [1..<128]"
    by (simp add: upt_conv_Cons)
  have first: "distance_step (Finite a # replicate 127 (Finite 0)) (replicate 128 (Finite 0))
      (Finite 0) 0 = Finite (a * a)"
    using assms by (simp add: distance_step_def fsub_def)
  have "\<forall>i\<in>set [1..<128]. 0 < i \<and> i < 128"
    by simp
  then have "foldl (distance_step (Finite a # replicate 127 (Finite 0)) (replicate 128 (Finite 0)))
      (Finite (a * a)) [1..<128] = Finite (a * a)"
    using assms(2) by (rule distance_steps_zero)
  then show ?thesis
    unfolding FaceDistance_def u by (simp only: foldl.simps first)
qed


subsection \<open>Normalisation\<close>

lemma foldl_squares_zeros: "foldl (\<lambda>sum v. sum + v * v) a (replicate n (0::real)) = a"
  by (induction n arbitrary: a) simp_all

lemma foldl_squares_sum_list:
  "foldl (\<lambda>sum v. sum + v * v) a xs = a + sum_list (map (\<lambda>v. v * v) (xs :: real list))"
  by (induction xs arbitrary: a) simp_all

lemma NormalizeEncoding_zero:
  "sum_list (map (\<lambda>v. v * v) encoding) = 0 \<Longrightarrow> NormalizeEncoding encoding = encoding"
  by (simp add: NormalizeEncoding_def foldl_squares_sum_list)

lemma NormalizeEncoding_norm:
  assumes "sum_list (map (\<lambda>v. v * v) encoding) \<noteq> 0"
  shows "euclidean_norm (NormalizeEncoding encoding) = 1 / euclidean_norm encoding"
proof -
  define S where "S = sum_list (map (\<lambda>v. v * v) encoding)"
  have S: "S \<noteq> 0" using assms by (simp add: S_def)
  have n: "NormalizeEncoding encoding = map (\<lambda>v. v * (1 / S)) encoding"
    using S by (simp add: NormalizeEncoding_def foldl_squares_sum_list S_def Let_def)
  have "sum_list (map (\<lambda>v. v * v) (map (\<lambda>v. v * (1 / S)) encoding))
      = sum_list (map (\<lambda>v. (v * v) * (1 / (S * S))) encoding)"
    by (simp add: comp_def)
  also have "\<dots> = S * (1 / (S * S))"
    unfolding S_def by (rule sum_list_mult_const)
  also have "\<dots> = 1 / S"
    using S by simp
  finally show ?thesis
    by (simp add: euclidean_norm_def n S_def [symmetric] real_sqrt_divide)
qed

section \<open>Lemmas about the pipeline\<close>

text \<open>Index ranges that start at 0 unroll like those between two numerals.\<close>

lemma upt_0_numeral: "[0..<numeral n] = 0 # [Suc 0..<numeral n]"
  by (simp add: upt_conv_Cons)

lemma upt_1_numeral:
  "[Suc 0..<numeral n] = (if Suc 0 < numeral n then Suc 0 # [2..<numeral n] else [])"
  by (simp add: upt_conv_Cons numeral_2_eq_2)

lemma structure_points_map:
  "structure_points (map f [0..<68]) 68 =
     Inr \<lparr>Chin = map f [0..<17],
          LeftEyebrow = map f [17..<22],
          RightEyebrow = map f [22..<27],
          NoseBridge = map f [27..<31],
          NoseTip = map f [31..<36],
          LeftEye = map f [36..<42],
          RightEye = map f [42..<48],
          TopLip = map f [48, 49, 50, 51, 52, 53, 54, 64, 63, 62, 61, 60],
          BottomLip = map f [54, 64, 63, 62, 61, 60, 48, 48, 67, 66, 65, 64]\<rparr>"
  by (simp add: upt_0_numeral upt_1_numeral structure_points_def reslice_def slice_index_def go_append_def
      write_at_def slice_contents_def and_then_def Let_def)

lemma structure_points_68:
  assumes "length points = 68"
  shows "structure_points points 68 =
     Inr \<lparr>Chin = map (\<lambda>i. points ! i) [0..<17],
          LeftEyebrow = map (\<lambda>i. points ! i) [17..<22],
          RightEyebrow = map (\<lambda>i. points ! i) [22..<27],
          NoseBridge = map (\<lambda>i. points ! i) [27..<31],
          NoseTip = map (\<lambda>i. points ! i) [31..<36],
          LeftEye = map (\<lambda>i. points ! i) [36..<42],
          RightEye = map (\<lambda>i. points ! i) [42..<48],
          TopLip = map (\<lambda>i. points ! i) [48, 49, 50, 51, 52, 53, 54, 64, 63, 62, 61, 60],
          BottomLip = map (\<lambda>i. points ! i) [54, 64, 63, 62, 61, 60, 48, 48, 67, 66, 65, 64]\<rparr>"
proof -
  have "points = map (\<lambda>i. points ! i) [0..<68]"
    using assms by (metis map_nth)
  then have "structure_points points 68 = structure_points (map (\<lambda>i. points ! i) [0..<68]) 68"
    by simp
  also note structure_points_map
  finally show ?thesis .
qed

lemma lower_lip_spec_68:
  "lower_lip_spec points = map (\<lambda>i. points ! i) [54, 55, 56, 57, 58, 59, 48, 60, 67, 66, 65, 64]"
  by (simp add: lower_lip_spec_def)

lemma upper_lip_spec_68:
  "upper_lip_spec points = map (\<lambda>i. points ! i) [48, 49, 50, 51, 52, 53, 54, 64, 63, 62, 61, 60]"
  by (simp add: upper_lip_spec_def)

lemma structure_points_lips:
  assumes "length points = 68"
  shows "\<exists>l. structure_points points 68 = Inr l \<and>
     TopLip l = upper_lip_spec points \<and>
     BottomLip l = map (\<lambda>i. points ! i) [54, 64, 63, 62, 61, 60, 48, 48, 67, 66, 65, 64] \<and>
     last (TopLip l) = points ! 60 \<and> BottomLip l ! 6 = points ! 48"
  by (simp add: structure_points_68 [OF assms] upper_lip_spec_68)

lemma map_nth_upt: "length xs = n \<Longrightarrow> map (\<lambda>j. xs ! j) [0..<n] = xs"
  by (auto simp: map_nth)

lemma opened_simps [simp]:
  "initialized (opened engine)" "rec (opened engine) = Some engine"
  "opened engine\<lparr>rec := Some engine'\<rparr> = opened engine'"
  by (simp_all add: opened_def)

lemma C_int_fits: "- (2 ^ 31) \<le> n \<Longrightarrow> n < 2 ^ 31 \<Longrightarrow> C_int n = n"
  by (simp add: C_int_def sint_sbintrunc' signed_take_bit_int_eq_self)

lemma C_int_1 [simp]: "C_int 1 = 1"
  by (simp add: C_int_fits)

lemma FaceLocations_opened:
  "FaceLocations (opened engine) img upsampleTimes model =
     (if hog_loaded engine then
        (case hog_detector engine img (C_int (if upsampleTimes < 1 then 1 else upsampleTimes)) of
           Inl what \<Rightarrow> (Inr [], opened (engine\<lparr>error_msg := what\<rparr>))
         | Inr dets \<Rightarrow>
             (Inr (map (\<lambda>r. trimRectToBounds r (Height img) (Width img)) dets), opened engine))
      else (Inr [], opened engine))"
  by (auto simp: FaceLocations_def facerec_detect_def Let_def split: sum.splits)

lemma landmarks_for_68:
  assumes "faceLocations \<noteq> []" "sp68_loaded engine"
  shows "landmarks_for (opened engine) img faceLocations LandmarkLarge =
     (case predict_all (shape_predictor_68 engine) 68 img faceLocations of
        Inl what \<Rightarrow> (Inr [], opened (engine\<lparr>error_msg := what\<rparr>))
      | Inr cLandmarksSlice \<Rightarrow>
          (Inr (map (\<lambda>i. map (\<lambda>j. cLandmarksSlice ! (i * 68 + j)) [0..<68]) [0..<length faceLocations]),
           opened engine))"
  using assms
  by (auto simp: landmarks_for_def facerec_landmarks_def run_predictor_def LandmarkLarge_def
      LandmarkSmall_def Let_def split: sum.splits)

lemma predict_all_single:
  "predict_all predictor n img [face_rect] =
     (case predictor img face_rect of Inl what \<Rightarrow> Inl what | Inr shape \<Rightarrow> Inr (map shape [0..<n]))"
  by (simp split: sum.splits)

lemma raw_of_single_shape:
  "map (\<lambda>i. map (\<lambda>j. map shape [0..<68] ! (i * 68 + j)) [0..<68]) [0..<length [face_rect]]
     = [map shape [0..<68]]"
proof -
  have "map (\<lambda>j. map shape [0..<68] ! j) [0..<68] = map shape [0..<68]"
    by (rule map_nth_upt) simp
  then show ?thesis by simp
qed

lemma FaceLandmarksDetect_example:
  assumes "sp68_loaded engine" "shape_predictor_68 engine = (\<lambda>img r. Inr example_point)"
  shows "FaceLandmarksDetect (opened engine) img (Some [example_box]) LandmarkLarge
     = (Inr [map example_point [0..<68]], opened engine)"
  using assms raw_of_single_shape [of example_point example_box]
  by (simp add: FaceLandmarksDetect_def landmarks_for_68 predict_all_single del: upt_Suc)

lemma FaceLandmarks_example:
  assumes "sp68_loaded engine" "shape_predictor_68 engine = (\<lambda>img r. Inr example_point)"
  shows "FaceLandmarks (opened engine) img (Some [example_box]) =
     (Inr [\<lparr>Chin = map example_point [0..<17],
            LeftEyebrow = map example_point [17..<22],
            RightEyebrow = map example_point [22..<27],
            NoseBridge = map example_point [27..<31],
            NoseTip = map example_point [31..<36],
            LeftEye = map example_point [36..<42],
            RightEye = map example_point [42..<48],
            TopLip = map example_point [48, 49, 50, 51, 52, 53, 54, 64, 63, 62, 61, 60],
            BottomLip = map example_point [54, 64, 63, 62, 61, 60, 48, 48, 67, 66, 65, 64]\<rparr>],
      opened engine)"
proof -
  have "structure_all [map example_point [0..<68]] =
      and_then (structure_points (map example_point [0..<68]) 68) (\<lambda>l. Inr [l])"
    by (simp add: and_then_def split: sum.splits)
  then show ?thesis
    by (simp only: FaceLandmarks_def FaceLandmarksDetect_example [OF assms] structure_points_map
        and_then_def prod.case sum.case)
qed

lemma facerec_detect_use_cnn:
  "facerec_detect handle img upsample_times use_cnn = facerec_detect handle img upsample_times 0"
  by (simp add: facerec_detect_def)

lemma facerec_detect_null_count:
  "facerec_detect handle img upsample_times use_cnn = (None, numFaces, handle') \<Longrightarrow> numFaces = 0"
  by (auto simp: facerec_detect_def split: option.splits sum.splits if_splits)

lemma FaceLocations_example:
  "FaceLocations (opened working_engine) test_image 1 model = (Inr [example_box], opened working_engine)"
  by (simp add: FaceLocations_opened working_engine_def trimRectToBounds_def example_box_def
      test_image_def)

lemma flatten_row_ok:
  "base + k + length r \<le> length cPoints \<Longrightarrow>
   flatten_row base (enumerate k r) cPoints
     = Inr (take (base + k) cPoints @ r @ drop (base + k + length r) cPoints)"
proof (induction r arbitrary: k cPoints)
  case Nil
  then show ?case by simp
next
  case (Cons p r)
  have "base + Suc k + length r \<le> length (cPoints[base + k := p])"
    using Cons.prems by simp
  from Cons.IH [OF this]
  have "flatten_row base (enumerate (Suc k) r) (cPoints[base + k := p]) =
      Inr (take (base + Suc k) (cPoints[base + k := p]) @ r @
           drop (base + Suc k + length r) (cPoints[base + k := p]))" .
  moreover have "take (base + Suc k) (cPoints[base + k := p]) = take (base + k) cPoints @ [p]"
    using Cons.prems by (simp add: take_Suc_conv_app_nth)
  moreover have "drop (base + Suc k + length r) (cPoints[base + k := p])
      = drop (base + k + length (p # r)) cPoints"
    by simp
  ultimately show ?case
    using Cons.prems by simp
qed

lemma flatten_points_single:
  "flatten_points (length r) (enumerate 0 [r]) (replicate (length [r] * length r) z) = Inr r"
  using flatten_row_ok [of 0 0 r "replicate (length r) z"]
  by (simp add: and_then_def)

lemma failing_engines [simp]:
  "hog_loaded failing_detector_engine" "hog_detector failing_detector_engine = (\<lambda>img upsample. Inl ''detector failed'')"
  "hog_loaded failing_predictor_engine" "hog_detector failing_predictor_engine = (\<lambda>img upsample. Inr [example_box])"
  "sp68_loaded failing_predictor_engine"
  "shape_predictor_68 failing_predictor_engine = (\<lambda>img r. Inl ''predictor failed'')"
  "hog_loaded failing_encoder_engine" "hog_detector failing_encoder_engine = (\<lambda>img upsample. Inr [example_box])"
  "sp68_loaded failing_encoder_engine"
  "shape_predictor_68 failing_encoder_engine = (\<lambda>img r. Inr example_point)"
  "encoder_loaded failing_encoder_engine"
  "face_encoder failing_encoder_engine = (\<lambda>img parts. Inl ''encoder failed'')"
  by (simp_all add: failing_detector_engine_def failing_predictor_engine_def
      failing_encoder_engine_def working_engine_def)

lemma trim_example_box [simp]:
  "trimRectToBounds example_box (Height test_image) (Width test_image) = example_box"
  by (simp add: trimRectToBounds_def example_box_def test_image_def)

lemma FaceLocations_failing_detector:
  "FaceLocations (opened failing_detector_engine) test_image 1 model =
     (Inr [], opened (failing_detector_engine\<lparr>error_msg := ''detector failed''\<rparr>))"
  by (simp add: FaceLocations_opened)

lemma FaceLandmarksDetect_failing_predictor:
  "FaceLandmarksDetect (opened failing_predictor_engine) test_image (Some [example_box]) LandmarkLarge =
     (Inr [], opened (failing_predictor_engine\<lparr>error_msg := ''predictor failed''\<rparr>))"
  by (simp add: FaceLandmarksDetect_def landmarks_for_68)

lemma FaceLandmarksDetect_failing_predictor_again:
  "FaceLandmarksDetect (opened (failing_predictor_engine\<lparr>error_msg := ''predictor failed''\<rparr>))
     test_image (Some [example_box]) LandmarkLarge =
     (Inr [], opened (failing_predictor_engine\<lparr>error_msg := ''predictor failed''\<rparr>))"
  by (simp add: FaceLandmarksDetect_def landmarks_for_68)

lemma facerec_encode_failing_encoder:
  "facerec_encode (Some failing_encoder_engine) test_image (map example_point [0..<68]) 1 68 1 =
     (None, Some (failing_encoder_engine\<lparr>error_msg := ''encoder failed''\<rparr>))"
  by (simp add: facerec_encode_def)

lemma flatten_example:
  "flatten_points 68 (enumerate 0 [map example_point [0..<68]])
     (replicate (length [map example_point [0..<68]] * 68) \<lparr>X = 0, Y = 0\<rparr>)
     = Inr (map example_point [0..<68])"
  using flatten_points_single [of "map example_point [0..<68]" "\<lparr>X = 0, Y = 0\<rparr>"]
  by simp

lemma FaceEncodings_failing_encoder:
  "FaceEncodings (opened failing_encoder_engine) test_image (Some [example_box]) 1 LandmarkLarge =
     (Inr [], opened (failing_encoder_engine\<lparr>error_msg := ''encoder failed''\<rparr>))"
proof -
  have l: "FaceLandmarksDetect (opened failing_encoder_engine) test_image (Some [example_box]) LandmarkLarge
      = (Inr [map example_point [0..<68]], opened failing_encoder_engine)"
    by (rule FaceLandmarksDetect_example) simp_all
  have m: "LandmarkLarge \<noteq> LandmarkSmall"
    by (simp add: LandmarkLarge_def LandmarkSmall_def)
  show ?thesis
    using flatten_example
    by (simp add: FaceEncodings_def l m Let_def facerec_encode_failing_encoder del: upt_Suc)
qed

lemma assemble_faces_from:
  "k \<le> length encodings \<Longrightarrow> length encodings < n \<Longrightarrow>
   assemble_faces [k..<n] locations landmarks encodings
     = Inl (PanicIndexOutOfRange (length encodings) (length encodings))"
proof (induction "length encodings - k" arbitrary: k)
  case 0
  then have k: "k = length encodings" by simp
  with 0 have "[k..<n] = k # [Suc k..<n]" by (simp add: upt_conv_Cons)
  with k show ?case by simp
next
  case (Suc d)
  then have k: "k < length encodings" by simp
  with Suc.prems have up: "[k..<n] = k # [Suc k..<n]" by (simp add: upt_conv_Cons)
  have "assemble_faces [Suc k..<n] locations landmarks encodings
      = Inl (PanicIndexOutOfRange (length encodings) (length encodings))"
    using Suc.hyps(1) [of "Suc k"] Suc.hyps(2) Suc.prems k by simp
  with k up show ?case by (simp add: and_then_def)
qed

lemma assemble_faces_enough:
  "n \<le> length encodings \<Longrightarrow>
   \<exists>faces. assemble_faces [k..<n] locations landmarks encodings = Inr faces \<and> length faces = n - k"
proof (induction "n - k" arbitrary: k)
  case 0
  then show ?case by simp
next
  case (Suc d)
  then have k: "k < n" by simp
  then have up: "[k..<n] = k # [Suc k..<n]" by (simp add: upt_conv_Cons)
  have "d = n - Suc k" using Suc.hyps(2) by simp
  from Suc.hyps(1) [OF this Suc.prems]
  obtain faces where "assemble_faces [Suc k..<n] locations landmarks encodings = Inr faces"
    "length faces = n - Suc k"
    by blast
  with k up Suc.prems show ?case by (simp add: and_then_def)
qed

lemma DetectAndEncode_short_encodings:
  assumes "FaceLocations fr img upsampleTimes HOG = (Inr locations, fr1)"
    and "FaceLandmarks fr1 img (Some locations) = (Inr landmarks, fr2)"
    and "FaceEncodings fr2 img (Some locations) numJitters LandmarkLarge = (Inr encodings, fr3)"
    and "length encodings < length locations"
  shows "DetectAndEncode fr img upsampleTimes numJitters
     = (Inl (PanicIndexOutOfRange (length encodings) (length encodings)), fr3)"
  using assms assemble_faces_from [of 0 encodings "length locations" locations landmarks]
  by (simp add: DetectAndEncode_def)

lemma DetectAndEncode_enough_encodings:
  assumes "FaceLocations fr img upsampleTimes HOG = (Inr locations, fr1)"
    and "FaceLandmarks fr1 img (Some locations) = (Inr landmarks, fr2)"
    and "FaceEncodings fr2 img (Some locations) numJitters LandmarkLarge = (Inr encodings, fr3)"
    and "length locations \<le> length encodings"
  shows "\<exists>faces. fst (DetectAndEncode fr img upsampleTimes numJitters) = Inr faces \<and>
     length faces = length locations"
  using assms assemble_faces_enough [of "length locations" encodings 0 locations landmarks]
  by (simp add: DetectAndEncode_def)

section \<open>Lip contours\<close>

text \<open>
  Claim C1 fails on the code. \<open>r.Points\<close> has length and capacity 68, so
  \<open>r.Points[48:55]\<close> has capacity 20 and the \<open>append\<close> that builds \<open>TopLip\<close> writes
  its five points into \<open>r.Points[55..59]\<close>, the array that \<open>r.Points[54:60]\<close> shares.
  The upper lip comes out as specified, but the lower lip starts with raw point 54
  followed by raw points 64, 63, 62, 61, 60 instead of raw points 55 to 59, and the
  inner \<open>append\<close> of \<open>BottomLip\<close> overwrites \<open>r.Points[60]\<close> with raw point 48 before it is
  read again (lemma \<open>structure_points_68\<close> gives the contours of every 68-point set,
  lemma \<open>structure_points_lips\<close> the parts of the claim that hold). For the one face
  of the example recognizer, whose raw point \<open>j\<close> is \<open>(j, 100 + j)\<close>, \<open>FaceLandmarks\<close>
  returns a lower lip that differs from the specified one:
\<close>

theorem FaceLandmarks_lower_lip_overwritten:
  "FaceLandmarks (opened working_engine) test_image (Some [example_box]) =
     (Inr [\<lparr>Chin = map example_point [0..<17],
            LeftEyebrow = map example_point [17..<22],
            RightEyebrow = map example_point [22..<27],
            NoseBridge = map example_point [27..<31],
            NoseTip = map example_point [31..<36],
            LeftEye = map example_point [36..<42],
            RightEye = map example_point [42..<48],
            TopLip = upper_lip_spec (map example_point [0..<68]),
            BottomLip = map example_point [54, 64, 63, 62, 61, 60, 48, 48, 67, 66, 65, 64]\<rparr>],
      opened working_engine) \<and>
   lower_lip_spec (map example_point [0..<68])
     = map example_point [54, 55, 56, 57, 58, 59, 48, 60, 67, 66, 65, 64] \<and>
   map example_point [54, 64, 63, 62, 61, 60, 48, 48, 67, 66, 65, 64]
     \<noteq> lower_lip_spec (map example_point [0..<68])"
proof -
  have e: "sp68_loaded working_engine" "shape_predictor_68 working_engine = (\<lambda>img r. Inr example_point)"
    by (simp_all add: working_engine_def)
  have u: "upper_lip_spec (map example_point [0..<68])
      = map example_point [48, 49, 50, 51, 52, 53, 54, 64, 63, 62, 61, 60]"
    by (simp add: upper_lip_spec_68)
  have l: "lower_lip_spec (map example_point [0..<68])
      = map example_point [54, 55, 56, 57, 58, 59, 48, 60, 67, 66, 65, 64]"
    by (simp add: lower_lip_spec_68)
  have d: "map example_point [54, 64, 63, 62, 61, 60, 48, 48, 67, 66, 65, 64]
      \<noteq> map example_point [54, 55, 56, 57, 58, 59, 48, 60, 67, 66, 65, 64]"
    by (simp add: example_point_def)
  show ?thesis
    unfolding u l using FaceLandmarks_example [OF e, of test_image] d by simp
qed

section \<open>Unit normalisation\<close>

text \<open>
  Claim C2 fails on the code. For the descriptor \<open>(2, 0, \<dots>, 0)\<close>, of magnitude 2,
  \<open>NormalizeEncoding\<close> divides by the sum of squares 4 and returns \<open>(1/2, 0, \<dots>, 0)\<close>,
  whose Euclidean norm is \<open>1/2\<close>; dividing by the magnitude gives the unit vector
  \<open>(1, 0, \<dots>, 0)\<close>. Every step on this input (\<open>2 * 2\<close>, \<open>1 / 4\<close>, \<open>2 * 0.25\<close>,
  \<open>0 * 0.25\<close>) is exact in binary floating point, so the real-number model and the
  \<open>float64\<close> code agree here. In general the result has norm \<open>1 / |v|\<close> (lemma
  \<open>NormalizeEncoding_norm\<close>); a zero vector is returned unchanged (lemma
  \<open>NormalizeEncoding_zero\<close>).
\<close>

theorem NormalizeEncoding_not_unit:
  "NormalizeEncoding (2 # replicate 127 0) = 1/2 # replicate 127 0 \<and>
   euclidean_norm (NormalizeEncoding (2 # replicate 127 0)) = 1/2 \<and>
   euclidean_norm (2 # replicate 127 0) = 2 \<and>
   map (\<lambda>v. v / euclidean_norm (2 # replicate 127 0)) (2 # replicate 127 0) = 1 # replicate 127 0"
proof -
  have n: "NormalizeEncoding (2 # replicate 127 0) = 1/2 # replicate 127 0"
    by (simp add: NormalizeEncoding_def foldl_squares_zeros Let_def)
  have e: "euclidean_norm (1/2 # replicate 127 0) = 1/2"
  proof -
    have "euclidean_norm (1/2 # replicate 127 0) = sqrt ((1/2) * (1/2))"
      by (simp add: euclidean_norm_def sum_list_replicate)
    also have "\<dots> = 1/2"
      by (simp only: real_sqrt_abs2)
    finally show ?thesis .
  qed
  have t: "euclidean_norm (2 # replicate 127 0) = 2"
  proof -
    have "euclidean_norm (2 # replicate 127 0) = sqrt (2 * 2)"
      by (simp add: euclidean_norm_def sum_list_replicate)
    also have "\<dots> = 2"
      by (simp only: real_sqrt_abs2)
    finally show ?thesis .
  qed
  show ?thesis
    by (simp add: n e t)
qed

section \<open>Best match\<close>

text \<open>
  What the scan computes whenever its starting value \<open>tolerance + 1\<close> is above the
  tolerance, which is so for every positive tolerance below \<open>2 ^ 53 - 1\<close>
  (\<open>tolerance_plus_one\<close>): the first entry of smallest distance among the entries
  within the tolerance, the distances being those that \<open>FaceDistance\<close> computes.
\<close>

lemma FindBestMatch_first_minimum:
  assumes "flt (Finite 0) tolerance" "flt tolerance (fadd tolerance (Finite 1))"
  shows
    "((\<exists>i<length known. fle (FaceDistance (known ! i) probe) tolerance) \<longrightarrow>
        (\<exists>j<length known.
           FindBestMatch known probe tolerance = (int j, FaceDistance (known ! j) probe) \<and>
           fle (FaceDistance (known ! j) probe) tolerance \<and>
           (\<forall>i<length known. fle (FaceDistance (known ! i) probe) tolerance \<longrightarrow>
              fle (FaceDistance (known ! j) probe) (FaceDistance (known ! i) probe)) \<and>
           (\<forall>i<j. fle (FaceDistance (known ! i) probe) tolerance \<longrightarrow>
              flt (FaceDistance (known ! j) probe) (FaceDistance (known ! i) probe)))) \<and>
     (\<not> (\<exists>i<length known. fle (FaceDistance (known ! i) probe) tolerance) \<longrightarrow>
        FindBestMatch known probe tolerance = (-1, Finite 0)) \<and>
     (fst (FindBestMatch known probe tolerance) = -1 \<longleftrightarrow>
        \<not> (\<exists>i<length known. fle (FaceDistance (known ! i) probe) tolerance))"
proof -
  define ds where "ds = FaceDistances known probe"
  define start where "start = fadd tolerance (Finite 1)"
  have len: "length ds = length known"
    and nth: "\<And>i. i < length known \<Longrightarrow> ds ! i = FaceDistance (known ! i) probe"
    by (simp_all add: ds_def FaceDistances_map)
  obtain bi bd where run: "best_scan (enumerate 0 ds) tolerance (-1) start = (bi, bd)"
    by (cases "best_scan (enumerate 0 ds) tolerance (-1) start") simp
  have res: "FindBestMatch known probe tolerance = (if bi = -1 then (-1, Finite 0) else (bi, bd))"
    using run by (simp add: FindBestMatch_scan [OF assms(1)] ds_def start_def)
  from best_scan_inv [OF run]
  consider (none) "bi = -1" "\<forall>x\<in>set ds. \<not> (fle x tolerance \<and> flt x start)"
    | (found) j where "j < length ds" "bi = int (0 + j)" "bd = ds ! j" "fle (ds ! j) tolerance"
        "\<forall>x\<in>set ds. fle x tolerance \<longrightarrow> fle (ds ! j) x"
        "\<forall>x\<in>set (take j ds). fle x tolerance \<longrightarrow> flt (ds ! j) x"
    by blast
  then show ?thesis
  proof cases
    case none
    have no: "\<not> (\<exists>i<length known. fle (FaceDistance (known ! i) probe) tolerance)"
    proof
      assume "\<exists>i<length known. fle (FaceDistance (known ! i) probe) tolerance"
      then obtain i where i: "i < length known" "fle (FaceDistance (known ! i) probe) tolerance"
        by blast
      then have "ds ! i \<in> set ds"
        by (intro nth_mem) (simp add: len)
      moreover have q: "fle (ds ! i) tolerance"
        using i by (simp add: nth)
      moreover have "flt (ds ! i) start"
        using q assms(2) unfolding start_def by (rule fle_flt_trans)
      ultimately show False using none(2) by blast
    qed
    from none(1) res have "FindBestMatch known probe tolerance = (-1, Finite 0)"
      by simp
    with no show ?thesis by simp
  next
    case found
    have j: "j < length known" using found(1) len by simp
    have r: "FindBestMatch known probe tolerance = (int j, FaceDistance (known ! j) probe)"
      using res found(2,3) j by (simp add: nth)
    have q: "fle (FaceDistance (known ! j) probe) tolerance"
      using found(4) j by (simp add: nth)
    have m: "\<forall>i<length known. fle (FaceDistance (known ! i) probe) tolerance \<longrightarrow>
        fle (FaceDistance (known ! j) probe) (FaceDistance (known ! i) probe)"
    proof (intro allI impI)
      fix i assume i: "i < length known" "fle (FaceDistance (known ! i) probe) tolerance"
      then have "ds ! i \<in> set ds"
        by (intro nth_mem) (simp add: len)
      moreover have "fle (ds ! i) tolerance"
        using i by (simp add: nth)
      ultimately have "fle (ds ! j) (ds ! i)" using found(5) by blast
      then show "fle (FaceDistance (known ! j) probe) (FaceDistance (known ! i) probe)"
        using i j by (simp add: nth)
    qed
    have f: "\<forall>i<j. fle (FaceDistance (known ! i) probe) tolerance \<longrightarrow>
        flt (FaceDistance (known ! j) probe) (FaceDistance (known ! i) probe)"
    proof (intro allI impI)
      fix i assume i: "i < j" "fle (FaceDistance (known ! i) probe) tolerance"
      then have "take j ds ! i \<in> set (take j ds)"
        using found(1) by (intro nth_mem) simp
      then have "ds ! i \<in> set (take j ds)"
        using i by simp
      moreover have "fle (ds ! i) tolerance"
        using i j by (simp add: nth)
      ultimately have "flt (ds ! j) (ds ! i)" using found(6) by blast
      then show "flt (FaceDistance (known ! j) probe) (FaceDistance (known ! i) probe)"
        using i j by (simp add: nth)
    qed
    have ex: "\<exists>i<length known. fle (FaceDistance (known ! i) probe) tolerance"
      using j q by blast
    have "fst (FindBestMatch known probe tolerance) \<noteq> -1"
      using r by simp
    with r q m f ex j show ?thesis by blast
  qed
qed

text \<open>
  A gallery at the distances 5, 3 and 3 from the probe, searched with tolerance 4:
  the first of the two entries at distance 3 is returned. A gallery whose only
  entry is at distance 5 has no match.
\<close>

lemma FindBestMatch_example:
  "FindBestMatch [Finite 5 # replicate 127 (Finite 0), Finite 3 # replicate 127 (Finite 0),
                  Finite (- 3) # replicate 127 (Finite 0)]
      (replicate 128 (Finite 0)) (Finite 4) = (1, Finite 3) \<and>
   FindBestMatch [Finite 5 # replicate 127 (Finite 0)] (replicate 128 (Finite 0)) (Finite 4)
     = (-1, Finite 0)"
proof -
  have r: "round64 3 = Finite 3" "round64 (- 3) = Finite (- 3)" "round64 5 = Finite 5"
    "round64 9 = Finite 9" "round64 25 = Finite 25"
    using round64_of_int [of 3] round64_of_int [of "- 3"] round64_of_int [of 5]
      round64_of_int [of 9] round64_of_int [of 25]
    by simp_all
  have s: "sqrt 9 = 3" "sqrt 25 = 5"
    by (simp_all add: real_sqrt_unique)
  have d: "FaceDistance (Finite 5 # replicate 127 (Finite 0)) (replicate 128 (Finite 0)) = Finite 5"
    "FaceDistance (Finite 3 # replicate 127 (Finite 0)) (replicate 128 (Finite 0)) = Finite 3"
    "FaceDistance (Finite (- 3) # replicate 127 (Finite 0)) (replicate 128 (Finite 0)) = Finite 3"
    using r s by (simp_all add: FaceDistance_axis)
  show ?thesis
    using r by (simp add: FindBestMatch_def FaceDistances_def Let_def d)
qed

text \<open>
  Claim C3. The claim fails for a tolerance of \<open>2 ^ 53\<close>. The gallery holds one
  descriptor, \<open>2 ^ 53\<close> in its first component and zero elsewhere, and the probe is the
  zero descriptor: \<open>FaceDistance\<close> computes the distance \<open>2 ^ 53\<close> without any rounding,
  so the entry lies within the tolerance. The starting value \<open>tolerance + 1\<close> of
  \<open>bestDistance\<close> rounds to \<open>2 ^ 53\<close>, the entry is not strictly below it, and
  \<open>FindBestMatch\<close> returns the sentinel \<open>(-1, 0)\<close> where the claim, and the comment on
  the function, give index 0 and distance \<open>2 ^ 53\<close>.
\<close>

theorem FindBestMatch_misses_match_at_tolerance:
  "FaceDistance (Finite (2 ^ 53) # replicate 127 (Finite 0)) (replicate 128 (Finite 0))
     = Finite (2 ^ 53) \<and>
   fle (FaceDistance (Finite (2 ^ 53) # replicate 127 (Finite 0)) (replicate 128 (Finite 0)))
     (Finite (2 ^ 53)) \<and>
   fadd (Finite (2 ^ 53)) (Finite 1) = Finite (2 ^ 53) \<and>
   FindBestMatch [Finite (2 ^ 53) # replicate 127 (Finite 0)] (replicate 128 (Finite 0))
     (Finite (2 ^ 53)) = (-1, Finite 0)"
proof -
  have r: "round64 (2 ^ 53) = Finite (2 ^ 53)" "round64 (2 ^ 106) = Finite (2 ^ 106)"
    by (rule round64_power2, simp)+
  have d: "FaceDistance (Finite (2 ^ 53) # replicate 127 (Finite 0)) (replicate 128 (Finite 0))
      = Finite (2 ^ 53)"
    using r by (subst FaceDistance_axis) (simp_all add: real_sqrt_unique)
  have t: "fadd (Finite (2 ^ 53)) (Finite 1) = Finite (2 ^ 53)"
    using round64_tie by simp
  have "FindBestMatch [Finite (2 ^ 53) # replicate 127 (Finite 0)] (replicate 128 (Finite 0))
      (Finite (2 ^ 53)) = (-1, Finite 0)"
    using t d by (simp add: FindBestMatch_def FaceDistances_def Let_def)
  with d t show ?thesis by simp
qed

section \<open>Detect and encode\<close>

text \<open>
  Claim C4 fails on the code. One face is detected; the descriptor network throws,
  so \<open>FaceEncodings\<close> returns an empty list without an error, and \<open>DetectAndEncode\<close>
  indexes \<open>encodings[0]\<close> in an empty slice: the call panics instead of returning one
  face. The same happens when the landmark predictor throws, since \<open>FaceEncodings\<close>
  runs the landmark stage again. Only the \<open>landmarks\<close> index is guarded. Lemma
  \<open>DetectAndEncode_short_encodings\<close> is the general statement: fewer descriptors than
  boxes always end in the panic.
\<close>

theorem DetectAndEncode_panics:
  "fst (FaceLocations (opened failing_encoder_engine) test_image 1 HOG) = Inr [example_box] \<and>
   fst (FaceEncodings (opened failing_encoder_engine) test_image (Some [example_box]) 1 LandmarkLarge)
     = Inr [] \<and>
   fst (DetectAndEncode (opened failing_encoder_engine) test_image 1 1)
     = Inl (PanicIndexOutOfRange 0 0) \<and>
   fst (FaceLocations (opened failing_predictor_engine) test_image 1 HOG) = Inr [example_box] \<and>
   fst (FaceLandmarks (opened failing_predictor_engine) test_image (Some [example_box])) = Inr [] \<and>
   fst (DetectAndEncode (opened failing_predictor_engine) test_image 1 1)
     = Inl (PanicIndexOutOfRange 0 0)"
proof -
  have loc_e: "FaceLocations (opened failing_encoder_engine) test_image 1 HOG
      = (Inr [example_box], opened failing_encoder_engine)"
    by (simp add: FaceLocations_opened)
  have lm_e: "FaceLandmarks (opened failing_encoder_engine) test_image (Some [example_box]) =
      (Inr [\<lparr>Chin = map example_point [0..<17],
            LeftEyebrow = map example_point [17..<22],
            RightEyebrow = map example_point [22..<27],
            NoseBridge = map example_point [27..<31],
            NoseTip = map example_point [31..<36],
            LeftEye = map example_point [36..<42],
            RightEye = map example_point [42..<48],
            TopLip = map example_point [48, 49, 50, 51, 52, 53, 54, 64, 63, 62, 61, 60],
            BottomLip = map example_point [54, 64, 63, 62, 61, 60, 48, 48, 67, 66, 65, 64]\<rparr>],
       opened failing_encoder_engine)"
    by (rule FaceLandmarks_example) simp_all
  have enc_e: "FaceEncodings (opened failing_encoder_engine) test_image (Some [example_box]) 1 LandmarkLarge
      = (Inr [], opened (failing_encoder_engine\<lparr>error_msg := ''encoder failed''\<rparr>))"
    by (rule FaceEncodings_failing_encoder)
  have d_e: "fst (DetectAndEncode (opened failing_encoder_engine) test_image 1 1)
      = Inl (PanicIndexOutOfRange 0 0)"
    using DetectAndEncode_short_encodings [OF loc_e lm_e enc_e] by simp
  have loc_p: "FaceLocations (opened failing_predictor_engine) test_image 1 HOG
      = (Inr [example_box], opened failing_predictor_engine)"
    by (simp add: FaceLocations_opened)
  have lm_p: "FaceLandmarks (opened failing_predictor_engine) test_image (Some [example_box]) =
      (Inr [], opened (failing_predictor_engine\<lparr>error_msg := ''predictor failed''\<rparr>))"
    by (simp add: FaceLandmarks_def FaceLandmarksDetect_failing_predictor)
  have enc_p: "FaceEncodings (opened (failing_predictor_engine\<lparr>error_msg := ''predictor failed''\<rparr>))
      test_image (Some [example_box]) 1 LandmarkLarge
      = (Inr [], opened (failing_predictor_engine\<lparr>error_msg := ''predictor failed''\<rparr>))"
    by (simp add: FaceEncodings_def FaceLandmarksDetect_failing_predictor_again)
  have d_p: "fst (DetectAndEncode (opened failing_predictor_engine) test_image 1 1)
      = Inl (PanicIndexOutOfRange 0 0)"
    using DetectAndEncode_short_encodings [OF loc_p lm_p enc_p] by simp
  show ?thesis
    by (simp add: loc_e enc_e d_e loc_p lm_p d_p)
qed

section \<open>Detector variants\<close>

text \<open>
  \<open>FaceLocations\<close> rejects no variant: for every model string it returns what it
  returns for \<open>HOG\<close>. On an opened recognizer the boxes are those of the HOG detector,
  clamped, whatever variant was requested (the native \<open>facerec_detect\<close> does not read
  \<open>use_cnn\<close>), and the only error \<open>FaceLocations\<close> returns is
  \<open>RecognizerNotInitializedError\<close>, on a recognizer that is not initialized.
\<close>

lemma FaceLocations_runs_hog_for_every_model:
  "FaceLocations fr img upsampleTimes model = FaceLocations fr img upsampleTimes HOG \<and>
   (initialized fr \<and> rec fr = Some engine \<and> hog_loaded engine \<and>
    hog_detector engine img (C_int (if upsampleTimes < 1 then 1 else upsampleTimes)) = Inr dets \<longrightarrow>
      fst (FaceLocations fr img upsampleTimes model)
        = Inr (map (\<lambda>r. trimRectToBounds r (Height img) (Width img)) dets)) \<and>
   (fst (FaceLocations fr img upsampleTimes model) = Inl err \<longrightarrow>
      err = RecognizerNotInitializedError \<and> \<not> initialized fr)"
proof (intro conjI impI)
  show "FaceLocations fr img upsampleTimes model = FaceLocations fr img upsampleTimes HOG"
    unfolding FaceLocations_def Let_def
    by (simp only: facerec_detect_use_cnn [of _ _ _ "if model = CNN then 1 else 0"]
        facerec_detect_use_cnn [of _ _ _ "if HOG = CNN then 1 else 0"])
next
  assume "initialized fr \<and> rec fr = Some engine \<and> hog_loaded engine \<and>
    hog_detector engine img (C_int (if upsampleTimes < 1 then 1 else upsampleTimes)) = Inr dets"
  then show "fst (FaceLocations fr img upsampleTimes model)
      = Inr (map (\<lambda>r. trimRectToBounds r (Height img) (Width img)) dets)"
    by (auto simp: FaceLocations_def facerec_detect_def Let_def)
next
  assume a: "fst (FaceLocations fr img upsampleTimes model) = Inl err"
  show "err = RecognizerNotInitializedError"
  proof (cases "initialized fr")
    case False
    with a show ?thesis by (simp add: FaceLocations_def)
  next
    case True
    obtain cRects numFaces handle' where d:
      "facerec_detect (rec fr) img (C_int (if upsampleTimes < 1 then 1 else upsampleTimes))
         (if model = CNN then 1 else 0) = (cRects, numFaces, handle')"
      by (metis prod_cases3)
    show ?thesis
    proof (cases cRects)
      case None
      with d have "numFaces = 0" by (simp add: facerec_detect_null_count)
      with a True d show ?thesis by (simp add: FaceLocations_def Let_def)
    next
      case (Some rs)
      with a True d show ?thesis
        by (simp add: FaceLocations_def Let_def split: if_splits)
    qed
  qed
next
  assume a: "fst (FaceLocations fr img upsampleTimes model) = Inl err"
  show "\<not> initialized fr"
  proof
    assume True: "initialized fr"
    obtain cRects numFaces handle' where d:
      "facerec_detect (rec fr) img (C_int (if upsampleTimes < 1 then 1 else upsampleTimes))
         (if model = CNN then 1 else 0) = (cRects, numFaces, handle')"
      by (metis prod_cases3)
    show False
    proof (cases cRects)
      case None
      with d have "numFaces = 0" by (simp add: facerec_detect_null_count)
      with a True d show ?thesis by (simp add: FaceLocations_def Let_def)
    next
      case (Some rs)
      with a True d show ?thesis
        by (simp add: FaceLocations_def Let_def split: if_splits)
    qed
  qed
qed

text \<open>
  Claim C5. The claim fails, against the package's own documentation: the header of
  the boundary documents \<open>use_cnn\<close> as \<open>0 for HOG, 1 for CNN\<close>, the Go constants document
  \<open>CNN\<close> as a model of its own, and \<open>InvalidModelError\<close> is declared as the error
  "returned when an invalid model type is specified" but is constructed nowhere.
  Requesting the CNN variant, or the variant \<open>mmod\<close> that does not exist, on a
  recognizer whose HOG detector finds \<open>example_box\<close> succeeds with the box of the HOG
  detector, as the request for \<open>HOG\<close> does.
\<close>

theorem FaceLocations_cnn_runs_hog:
  "fst (FaceLocations (opened working_engine) test_image 1 CNN) = Inr [example_box] \<and>
   fst (FaceLocations (opened working_engine) test_image 1 ''mmod'') = Inr [example_box] \<and>
   fst (FaceLocations (opened working_engine) test_image 1 HOG) = Inr [example_box]"
  by (simp add: FaceLocations_example)

section \<open>Failure of the inference boundary\<close>

text \<open>
  When the boundary returns a null result for a non-empty input, the pipeline
  operation returns the empty list and no error: \<open>FaceLocations\<close> when
  \<open>facerec_detect\<close> returns null, \<open>FaceLandmarksDetect\<close> when \<open>facerec_landmarks\<close> returns
  null for a non-empty list of boxes, and \<open>FaceEncodings\<close> when \<open>facerec_encode\<close> returns
  null for the landmarks of at least one face.
\<close>

lemma null_boundary_result_is_empty_success:
  "(initialized fr \<and>
    fst (facerec_detect (rec fr) img (C_int (if upsampleTimes < 1 then 1 else upsampleTimes))
           (if model = CNN then 1 else 0)) = None \<longrightarrow>
      fst (FaceLocations fr img upsampleTimes model) = Inr []) \<and>
   (initialized fr \<and> faceLocations \<noteq> [] \<and>
    fst (facerec_landmarks (rec fr) img faceLocations (int (length faceLocations))
           (if landmarkModel = LandmarkSmall then 1 else 0)) = None \<longrightarrow>
      fst (FaceLandmarksDetect fr img (Some faceLocations) landmarkModel) = Inr []) \<and>
   (initialized fr \<and> FaceLandmarksDetect fr img given landmarkModel = (Inr raw, fr') \<and> raw \<noteq> [] \<and>
    flatten_points (if landmarkModel = LandmarkSmall then 5 else 68) (enumerate 0 raw)
      (replicate (length raw * (if landmarkModel = LandmarkSmall then 5 else 68)) \<lparr>X = 0, Y = 0\<rparr>)
      = Inr cPoints \<and>
    fst (facerec_encode (rec fr') img cPoints (int (length raw))
           (if landmarkModel = LandmarkSmall then 5 else 68)
           (C_int (if numJitters < 1 then 1 else numJitters))) = None \<longrightarrow>
      fst (FaceEncodings fr img given numJitters landmarkModel) = Inr [])"
proof (intro conjI impI)
  assume a: "initialized fr \<and>
    fst (facerec_detect (rec fr) img (C_int (if upsampleTimes < 1 then 1 else upsampleTimes))
           (if model = CNN then 1 else 0)) = None"
  obtain cRects numFaces handle' where d:
    "facerec_detect (rec fr) img (C_int (if upsampleTimes < 1 then 1 else upsampleTimes))
       (if model = CNN then 1 else 0) = (cRects, numFaces, handle')"
    by (metis prod_cases3)
  with a have "cRects = None" by simp
  with d have "numFaces = 0" by (simp add: facerec_detect_null_count)
  with a d show "fst (FaceLocations fr img upsampleTimes model) = Inr []"
    by (simp add: FaceLocations_def Let_def)
next
  assume a: "initialized fr \<and> faceLocations \<noteq> [] \<and>
    fst (facerec_landmarks (rec fr) img faceLocations (int (length faceLocations))
           (if landmarkModel = LandmarkSmall then 1 else 0)) = None"
  obtain cLandmarks handle' where d:
    "facerec_landmarks (rec fr) img faceLocations (int (length faceLocations))
       (if landmarkModel = LandmarkSmall then 1 else 0) = (cLandmarks, handle')"
    by (metis surj_pair)
  with a have "cLandmarks = None" by simp
  with a d show "fst (FaceLandmarksDetect fr img (Some faceLocations) landmarkModel) = Inr []"
    by (simp add: FaceLandmarksDetect_def landmarks_for_def Let_def)
next
  assume a: "initialized fr \<and> FaceLandmarksDetect fr img given landmarkModel = (Inr raw, fr') \<and> raw \<noteq> [] \<and>
    flatten_points (if landmarkModel = LandmarkSmall then 5 else 68) (enumerate 0 raw)
      (replicate (length raw * (if landmarkModel = LandmarkSmall then 5 else 68)) \<lparr>X = 0, Y = 0\<rparr>)
      = Inr cPoints \<and>
    fst (facerec_encode (rec fr') img cPoints (int (length raw))
           (if landmarkModel = LandmarkSmall then 5 else 68)
           (C_int (if numJitters < 1 then 1 else numJitters))) = None"
  obtain cEncodings handle' where d:
    "facerec_encode (rec fr') img cPoints (int (length raw))
       (if landmarkModel = LandmarkSmall then 5 else 68)
       (C_int (if numJitters < 1 then 1 else numJitters)) = (cEncodings, handle')"
    by (metis surj_pair)
  with a have "cEncodings = None" by simp
  with a d show "fst (FaceEncodings fr img given numJitters landmarkModel) = Inr []"
    by (simp add: FaceEncodings_def Let_def)
qed

text \<open>
  Claim C6. The claim fails. A detector, a shape predictor or a descriptor network
  that throws makes the boundary return null and store the message of the exception
  in the handle; each of the three operations then returns the empty list with no
  error, and the message stays in the handle, unread. The boundary offers
  \<open>facerec_get_error\<close> for reading it ("Get last error message"), and
  \<open>NewFaceRecognizer\<close> does read it after \<open>facerec_init\<close> and returns a typed error; the
  three operations never call it.
\<close>

theorem boundary_failure_is_silent:
  "fst (facerec_detect (Some failing_detector_engine) test_image 1 0) = None \<and>
   FaceLocations (opened failing_detector_engine) test_image 1 HOG =
     (Inr [], opened (failing_detector_engine\<lparr>error_msg := ''detector failed''\<rparr>)) \<and>
   fst (facerec_landmarks (Some failing_predictor_engine) test_image [example_box] 1 0) = None \<and>
   FaceLandmarksDetect (opened failing_predictor_engine) test_image (Some [example_box]) LandmarkLarge =
     (Inr [], opened (failing_predictor_engine\<lparr>error_msg := ''predictor failed''\<rparr>)) \<and>
   fst (facerec_encode (Some failing_encoder_engine) test_image (map example_point [0..<68]) 1 68 1) = None \<and>
   FaceEncodings (opened failing_encoder_engine) test_image (Some [example_box]) 1 LandmarkLarge =
     (Inr [], opened (failing_encoder_engine\<lparr>error_msg := ''encoder failed''\<rparr>))"
  by (simp add: FaceLocations_failing_detector FaceLandmarksDetect_failing_predictor
      FaceEncodings_failing_encoder facerec_encode_failing_encoder facerec_detect_def
      facerec_landmarks_def run_predictor_def)

section \<open>Clamping a bounding box\<close>

text \<open>
  Claim C7, as amended. \<open>trimRectToBounds\<close> clamps each side on one side only: top and
  left are floored at 0, right and bottom are capped at the width and the height. Hence
  top and left are never negative, right never exceeds the width and bottom never
  exceeds the height, and clamping twice equals clamping once. The clamped box lies
  within \<open>[0,width] \<times> [0,height]\<close>, and equals the two-sided clamp, whenever the image
  extent is non-negative and the input box starts inside it on the sides the code does
  not clamp (right and bottom at least 0, top at most the height, left at most the
  width).
\<close>

theorem trimRectToBounds_one_sided:
  "Top (trimRectToBounds r h w) = max (Top r) 0 \<and>
   Right (trimRectToBounds r h w) = min (Right r) w \<and>
   Bottom (trimRectToBounds r h w) = min (Bottom r) h \<and>
   Left (trimRectToBounds r h w) = max (Left r) 0 \<and>
   0 \<le> Top (trimRectToBounds r h w) \<and> 0 \<le> Left (trimRectToBounds r h w) \<and>
   Right (trimRectToBounds r h w) \<le> w \<and> Bottom (trimRectToBounds r h w) \<le> h \<and>
   trimRectToBounds (trimRectToBounds r h w) h w = trimRectToBounds r h w \<and>
   (0 \<le> h \<and> 0 \<le> w \<and> 0 \<le> Right r \<and> 0 \<le> Bottom r \<and> Top r \<le> h \<and> Left r \<le> w \<longrightarrow>
      withinBounds (trimRectToBounds r h w) h w \<and>
      trimRectToBounds r h w = clampTwoSided r h w)"
  by (auto simp: trimRectToBounds_def withinBounds_def clampTwoSided_def)

theorem trimRectToBounds_one_sided_witness:
  "withinBounds (trimRectToBounds \<lparr>Top = -3, Right = 25, Bottom = 30, Left = 4\<rparr> 20 10) 20 10 \<and>
   trimRectToBounds \<lparr>Top = -3, Right = 25, Bottom = 30, Left = 4\<rparr> 20 10
     = \<lparr>Top = 0, Right = 10, Bottom = 20, Left = 4\<rparr>"
proof -
  let ?r = "\<lparr>Top = -3, Right = 25, Bottom = 30, Left = 4\<rparr>"
  have pre: "(0::int) \<le> 20 \<and> (0::int) \<le> 10 \<and> 0 \<le> Right ?r \<and> 0 \<le> Bottom ?r \<and>
      Top ?r \<le> 20 \<and> Left ?r \<le> 10"
    by simp
  from trimRectToBounds_one_sided [where r = ?r and h = 20 and w = 10] pre
  have "withinBounds (trimRectToBounds ?r 20 10) 20 10 \<and>
      trimRectToBounds ?r 20 10 = clampTwoSided ?r 20 10"
    by blast
  then show ?thesis
    by (auto simp: clampTwoSided_def)
qed

text \<open>
  The claim as stated fails: a box whose right edge is negative and whose top edge lies
  below the image keeps both, so the result is neither the two-sided clamp nor inside
  the image.
\<close>

theorem trimRectToBounds_not_contained:
  "trimRectToBounds \<lparr>Top = 20, Right = -5, Bottom = 3, Left = 2\<rparr> 10 10
     = \<lparr>Top = 20, Right = -5, Bottom = 3, Left = 2\<rparr> \<and>
   \<not> withinBounds (trimRectToBounds \<lparr>Top = 20, Right = -5, Bottom = 3, Left = 2\<rparr> 10 10) 10 10 \<and>
   trimRectToBounds \<lparr>Top = 20, Right = -5, Bottom = 3, Left = 2\<rparr> 10 10
     \<noteq> clampTwoSided \<lparr>Top = 20, Right = -5, Bottom = 3, Left = 2\<rparr> 10 10"
  by (simp add: trimRectToBounds_def withinBounds_def clampTwoSided_def)

section \<open>Descriptor stream round trip\<close>

text \<open>
  Claim C8, as amended. For every list of fewer than \<open>2^32\<close> descriptors, the empty
  list included, \<open>WriteEncodings\<close> into an empty buffer produces the 4-byte
  little-endian count followed by the descriptors' 128 little-endian values each, and
  \<open>ReadEncodings\<close> on these bytes returns the original list, bit for bit.
\<close>

theorem WriteEncodings_ReadEncodings_roundtrip:
  assumes "length encodings < 2 ^ 32" and "list_all (\<lambda>e. length e = 128) encodings"
  shows "WriteEncodings Buffer_Write [] encodings =
           (PutUint32 (word_of_nat (length encodings)) @ concat (map payload encodings), None) \<and>
         ReadEncodings (fst (WriteEncodings Buffer_Write [] encodings)) = Inr encodings"
  using ReadEncodings_WriteEncodings [OF assms] WriteEncodings_Buffer [of "[]" encodings]
  by simp

theorem WriteEncodings_ReadEncodings_roundtrip_witness:
  "ReadEncodings (fst (WriteEncodings Buffer_Write [] [])) = Inr [] \<and>
   WriteEncodings Buffer_Write [] [] = ([0, 0, 0, 0], None) \<and>
   ReadEncodings (fst (WriteEncodings Buffer_Write [] [replicate 128 5, replicate 128 6]))
     = Inr [replicate 128 5, replicate 128 6]"
proof -
  have e: "length ([] :: float64bits list list) < 2 ^ 32" "list_all (\<lambda>e. length e = 128) ([] :: float64bits list list)"
    by simp_all
  have t: "length [replicate 128 (5::float64bits), replicate 128 6] < 2 ^ 32"
    "list_all (\<lambda>e. length e = 128) [replicate 128 (5::float64bits), replicate 128 6]"
    by simp_all
  from WriteEncodings_ReadEncodings_roundtrip [OF e] WriteEncodings_ReadEncodings_roundtrip [OF t]
  show ?thesis
    by (auto simp: PutUint32_def)
qed

text \<open>
  The claim as stated, for every list, fails: the count is the length converted to
  \<open>uint32\<close>, so a list of \<open>2^32\<close> descriptors is written with a count of 0 and read
  back as the empty list.
\<close>

theorem WriteEncodings_count_wraps:
  "ReadEncodings (fst (WriteEncodings Buffer_Write [] (replicate (2 ^ 32) (replicate 128 0)))) = Inr [] \<and>
   ReadEncodings (fst (WriteEncodings Buffer_Write [] (replicate (2 ^ 32) (replicate 128 0))))
     \<noteq> Inr (replicate (2 ^ 32) (replicate 128 0))"
proof -
  have c: "unat (word_of_nat (2 ^ 32) :: 32 word) = 0"
    by simp
  have r: "ReadEncodings (fst (WriteEncodings Buffer_Write [] (replicate (2 ^ 32) (replicate 128 0)))) = Inr []"
    by (simp add: WriteEncodings_Buffer ReadEncodings_def binary_Read_uint32_Put)
  have "replicate (2 ^ 32) (replicate 128 (0::float64bits)) \<noteq> []"
    by simp
  with r show ?thesis by simp
qed

section \<open>Truncated input\<close>




section \<open>Decoding a single descriptor\<close>

text \<open>
  Claim C10. On at least 1024 bytes \<open>BytesToEncoding\<close> succeeds with 128 values; value
  \<open>i\<close> is the 64-bit pattern whose number is the sum of the bytes \<open>8i .. 8i+7\<close>, byte
  \<open>8i + k\<close> weighing \<open>256 ^ k\<close> (little-endian order), and the result is the same as on
  the first 1024 bytes alone, so trailing bytes are ignored. It returns an error
  exactly when the input is shorter than 1024 bytes.
\<close>

theorem BytesToEncoding_1024:
  "(1024 \<le> length data \<longrightarrow>
      snd (BytesToEncoding data) = None \<and>
      length (fst (BytesToEncoding data)) = 128 \<and>
      (\<forall>i<128. unat (fst (BytesToEncoding data) ! i)
                  = (\<Sum>k<8. unat (data ! (8 * i + k)) * 256 ^ k)) \<and>
      BytesToEncoding data = BytesToEncoding (take 1024 data)) \<and>
   (snd (BytesToEncoding data) \<noteq> None \<longleftrightarrow> length data < 1024)"
proof (cases "1024 \<le> length data")
  case True
  have v: "unat (fst (BytesToEncoding data) ! i) = (\<Sum>k<8. unat (data ! (8 * i + k)) * 256 ^ k)"
    if "i < 128" for i
  proof -
    have "fst (BytesToEncoding data) ! i = Uint64 (take 8 (drop (8 * i) data))"
      using that by (simp add: BytesToEncoding_long [OF True])
    moreover have "take 8 (drop (8 * i) data) ! k = data ! (8 * i + k)" if "k < 8" for k
      using that True \<open>i < 128\<close> by simp
    ultimately show ?thesis
      by (simp add: unat_Uint64)
  qed
  have "snd (BytesToEncoding data) = None" "length (fst (BytesToEncoding data)) = 128"
    by (simp_all add: BytesToEncoding_long [OF True])
  moreover have "BytesToEncoding data = BytesToEncoding (take 1024 data)"
    by (rule BytesToEncoding_prefix [OF True])
  moreover have "\<not> length data < 1024"
    using True by simp
  ultimately show ?thesis
    using v by auto
next
  case False
  then have "length data < 1024" by simp
  from BytesToEncoding_short [OF this] False show ?thesis by simp
qed

text \<open>
  1027 bytes: the bytes \<open>1 .. 8\<close>, then the eight bytes of the \<open>float64\<close> value \<open>1.0\<close>
  (pattern \<open>0x3FF0000000000000\<close>), then zeros, then three trailing bytes. The first
  value is the pattern \<open>0x0807060504030201\<close>, the second the pattern of \<open>1.0\<close>, the others
  zero; the trailing bytes are ignored. 1016 bytes are rejected.
\<close>

theorem BytesToEncoding_1024_witness:
  "BytesToEncoding ([1, 2, 3, 4, 5, 6, 7, 8] @ [0, 0, 0, 0, 0, 0, 240, 63] @ replicate 1008 0 @ [9, 9, 9])
     = (578437695752307201 # 4607182418800017408 # replicate 126 0, None) \<and>
   snd (BytesToEncoding (replicate 1016 1)) \<noteq> None"
proof -
  let ?data = "[1, 2, 3, 4, 5, 6, 7, 8] @ [0, 0, 0, 0, 0, 0, 240, 63] @ replicate 1008 0 @ [9, 9, 9 :: byte]"
  let ?enc = "fst (BytesToEncoding ?data)"
  have len: "1024 \<le> length ?data" by simp
  from BytesToEncoding_1024 [of ?data] len
  have ok: "snd (BytesToEncoding ?data) = None"
    and l: "length ?enc = 128"
    and v: "\<forall>i<128. unat (?enc ! i) = (\<Sum>k<8. unat (?data ! (8 * i + k)) * 256 ^ k)"
    by blast+
  have s8: "{..<8::nat} = {0, 1, 2, 3, 4, 5, 6, 7}"
    by auto
  have v0: "unat (?enc ! 0) = 578437695752307201"
    using v [rule_format, of 0] by (simp add: s8)
  have v1: "unat (?enc ! 1) = 4607182418800017408"
    using v [rule_format, of 1] by (simp add: s8 nth_append)
  have vz: "unat (?enc ! i) = 0" if "2 \<le> i" "i < 128" for i
  proof -
    have "?data ! (8 * i + k) = 0" if "k < 8" for k
    proof -
      have "16 \<le> 8 * i + k" "8 * i + k - 16 < 1008"
        using \<open>2 \<le> i\<close> \<open>i < 128\<close> that by simp_all
      then have "([1, 2, 3, 4, 5, 6, 7, 8, 0, 0, 0, 0, 0, 0, 240, 63] @ replicate 1008 0
          @ [9, 9, 9 :: byte]) ! (8 * i + k) = 0"
        by (intro nth_between [where p = 16]) simp_all
      then show ?thesis by simp
    qed
    then have "(\<Sum>k<8. unat (?data ! (8 * i + k)) * 256 ^ k) = (\<Sum>k<8::nat. 0)"
      by (intro sum.cong) simp_all
    with v that show ?thesis by simp
  qed
  have "?enc = 578437695752307201 # 4607182418800017408 # replicate 126 0"
  proof (rule nth_equalityI)
    show "length ?enc = length (578437695752307201 # 4607182418800017408 # replicate 126 (0 :: float64bits))"
      using l by simp
  next
    fix i assume "i < length ?enc"
    then have i: "i < 128" using l by simp
    consider "i = 0" | "i = 1" | "2 \<le> i" by linarith
    then have "unat (?enc ! i)
        = unat ((578437695752307201 # 4607182418800017408 # replicate 126 (0 :: float64bits)) ! i)"
    proof cases
      case 1
      then show ?thesis using v0 by simp
    next
      case 2
      then show ?thesis using v1 by simp
    next
      case 3
      then show ?thesis using vz [OF 3 i] i by (simp add: nth_Cons')
    qed
    then show "?enc ! i = (578437695752307201 # 4607182418800017408 # replicate 126 0) ! i"
      by (rule unsigned_word_eqI)
  qed
  with ok have "BytesToEncoding ?data
      = (578437695752307201 # 4607182418800017408 # replicate 126 0, None)"
    by (simp add: prod_eq_iff)
  moreover have "snd (BytesToEncoding (replicate 1016 1)) \<noteq> None"
    using BytesToEncoding_1024 [of "replicate 1016 1"] by simp
  ultimately show ?thesis by simp
qed

end
